theory Spec2Isabelle
  imports Complex_Main "HOL-Library.Sublist" "HOL-Library.AList"
begin

section \<open>Python values\<close>

text \<open>
  Exceptions of the Python code are values of \<open>error\<close>; a function that can raise returns
  \<open>error + 'a\<close>. Python floats are idealised as \<open>real\<close> (no rounding, no NaN, no infinity);
  for the frame sizes of the repository (1920 x 1080 and 320 x 128) the ratios 6 and 135/16
  and all their products with grid positions are exact in binary floating point, so the
  idealisation changes nothing there; for other sizes the results are about the exact
  arithmetic.
\<close>

datatype error = TypeError | ValueError | IndexError | ZeroDivisionError | RuntimeError | AssertionError

definition py_int :: "real \<Rightarrow> int" where
  \<comment> \<open>\<open>int(x)\<close> of a float: truncation towards zero\<close>
  "py_int r = (if 0 \<le> r then \<lfloor>r\<rfloor> else \<lceil>r\<rceil>)"

definition slice_indices :: "int \<Rightarrow> int \<Rightarrow> nat \<Rightarrow> nat \<times> nat" where
  \<comment> \<open>start and length of \<open>[lo:hi]\<close> on a dimension of size \<open>n\<close>: negative bounds count
      from the end, everything is clamped to \<open>0..n\<close>\<close>
  "slice_indices lo hi n =
     (let start = (if lo < 0 then max 0 (lo + int n) else min lo (int n));
          stop = (if hi < 0 then max 0 (hi + int n) else min hi (int n))
      in (nat start, nat (stop - start)))"

definition py_slice :: "'a list \<Rightarrow> int \<Rightarrow> int \<Rightarrow> 'a list" where
  "py_slice xs lo hi = (case slice_indices lo hi (length xs) of (s, l) \<Rightarrow> take l (drop s xs))"

definition py_setitem :: "'a list \<Rightarrow> int \<Rightarrow> 'a \<Rightarrow> error + 'a list" where
  \<comment> \<open>\<open>xs[i] = v\<close>\<close>
  "py_setitem xs i v =
     (let n = int (length xs); j = (if i < 0 then i + n else i)
      in if 0 \<le> j \<and> j < n then Inr (xs[nat j := v]) else Inl IndexError)"

section \<open>models/TTNet.py: the crop window\<close>

definition get_crop_params :: "int \<Rightarrow> int \<Rightarrow> int \<Rightarrow> int \<Rightarrow> int \<Rightarrow> int \<Rightarrow> int \<times> int \<times> int \<times> int" where
  "get_crop_params x_center y_center w_resize h_resize w_original h_original =
     (let x_min = max 0 (x_center - py_int (real_of_int w_resize / 2));
          y_min = max 0 (y_center - py_int (real_of_int h_resize / 2));
          x_max = min w_original (x_min + w_resize);
          y_max = min h_original (y_min + h_resize)
      in (x_min, x_max, y_min, y_max))"

definition adjust_pos :: "int \<Rightarrow> real \<Rightarrow> int" where
  \<comment> \<open>\<open>int(ball_pos_x * w_ratio)\<close>: a grid position scaled to the original size. The
      product is taken over the reals; the code multiplies in float32 (a position from
      \<open>torch.argmax\<close>) or in float64 (the fallback position). Both agree with the real
      product for 1920 x 1080 frames resized to 320 x 128; at sizes whose ratio is not a
      binary fraction the code's value can be one lower. Results that name the centre hold
      for every ratio or are stated at the sizes where the product is exact.\<close>
  "adjust_pos ball_pos ratio = py_int (real_of_int ball_pos * ratio)"

section \<open>Tensors\<close>

text \<open>
  A four-dimensional tensor (batch, channel, row, column) is its shape and an element
  function; only the elements inside the shape are meaningful. A three-dimensional tensor
  is the view that an indexing expression with one integer index and slices yields.
\<close>

record 'a tensor4 =
  dim_b :: nat
  dim_c :: nat
  dim_h :: nat
  dim_w :: nat
  elem :: "nat \<Rightarrow> nat \<Rightarrow> nat \<Rightarrow> nat \<Rightarrow> 'a"

record 'a tensor3 =
  size_c :: nat
  size_h :: nat
  size_w :: nat
  at3 :: "nat \<Rightarrow> nat \<Rightarrow> nat \<Rightarrow> 'a"

definition zeros_like :: "('a::zero) tensor4 \<Rightarrow> 'a tensor4" where
  "zeros_like t = t\<lparr>elem := \<lambda>b c y x. 0\<rparr>"

definition crop_hw :: "'a tensor4 \<Rightarrow> nat \<Rightarrow> int \<Rightarrow> int \<Rightarrow> int \<Rightarrow> int \<Rightarrow> 'a tensor3" where
  \<comment> \<open>\<open>t[idx, :, y_lo:y_hi, x_lo:x_hi]\<close> for \<open>idx\<close> inside the batch\<close>
  "crop_hw t idx y_lo y_hi x_lo x_hi =
     (case slice_indices y_lo y_hi (dim_h t) of (ys, hl) \<Rightarrow>
       (case slice_indices x_lo x_hi (dim_w t) of (xs, wl) \<Rightarrow>
          \<lparr>size_c = dim_c t, size_h = hl, size_w = wl,
           at3 = \<lambda>c y x. elem t idx c (ys + y) (xs + x)\<rparr>))"

definition expands_to :: "nat \<Rightarrow> nat \<Rightarrow> bool" where
  \<comment> \<open>broadcasting of an assigned value: a dimension fits when it is equal or 1\<close>
  "expands_to s d = (s = d \<or> s = 1)"

definition bidx :: "nat \<Rightarrow> nat \<Rightarrow> nat" where
  "bidx s i = (if s = 1 then 0 else i)"

definition assign_hw :: "'a tensor4 \<Rightarrow> nat \<Rightarrow> int \<Rightarrow> int \<Rightarrow> int \<Rightarrow> int \<Rightarrow> 'a tensor3 \<Rightarrow> error + 'a tensor4" where
  \<comment> \<open>\<open>t[idx, :, y_lo:y_hi, x_lo:x_hi] = v\<close>: IndexError outside the batch, RuntimeError when
      the shape of \<open>v\<close> does not fit the indexed region\<close>
  "assign_hw t idx y_lo y_hi x_lo x_hi v =
     (if dim_b t \<le> idx then Inl IndexError
      else (case slice_indices y_lo y_hi (dim_h t) of (ys, hl) \<Rightarrow>
             (case slice_indices x_lo x_hi (dim_w t) of (xs, wl) \<Rightarrow>
                if expands_to (size_c v) (dim_c t) \<and> expands_to (size_h v) hl \<and> expands_to (size_w v) wl
                then Inr (t\<lparr>elem := \<lambda>b c y x.
                             if b = idx \<and> ys \<le> y \<and> y < ys + hl \<and> xs \<le> x \<and> x < xs + wl
                             then at3 v (bidx (size_c v) c) (bidx (size_h v) (y - ys)) (bidx (size_w v) (x - xs))
                             else elem t b c y x\<rparr>)
                else Inl RuntimeError)))"

section \<open>models/TTNet.py: crop_original_batch\<close>

definition mask_pred :: "real list list \<Rightarrow> real list list" where
  \<comment> \<open>\<open>mask = pred_ball_global > 0.01; pred_ball_global * mask\<close>: every entry becomes 0
      or stays above 0.01, so a sum of such entries is zero in floating point exactly when
      it is zero over the reals\<close>
  "mask_pred pred_ball_global = map (map (\<lambda>v. v * (if 1 / 100 < v then 1 else 0))) pred_ball_global"

fun argmax_from :: "real list \<Rightarrow> nat \<Rightarrow> real \<Rightarrow> nat \<Rightarrow> nat" where
  "argmax_from [] i best best_i = best_i"
| "argmax_from (v # vs) i best best_i =
     (if best < v then argmax_from vs (Suc i) v i else argmax_from vs (Suc i) best best_i)"

definition argmax :: "real list \<Rightarrow> error + nat" where
  \<comment> \<open>\<open>torch.argmax\<close>: the index of the first maximal value; an empty tensor is an error\<close>
  "argmax xs = (case xs of [] \<Rightarrow> Inl RuntimeError | v # vs \<Rightarrow> Inr (argmax_from vs 1 v 0))"

definition ball_pos :: "int \<Rightarrow> int \<Rightarrow> real list \<Rightarrow> error + int \<times> int" where
  \<comment> \<open>the grid position chosen for one row of the masked global prediction\<close>
  "ball_pos w_resize h_resize row =
     (let pred_ball_pos_x = py_slice row 0 w_resize;
          pred_ball_pos_y = py_slice row w_resize (int (length row))
      in if sum_list pred_ball_pos_x = 0 \<or> sum_list pred_ball_pos_y = 0
         then Inr (py_int (real_of_int w_resize / 2), py_int (real_of_int h_resize / 2))
         else (case argmax pred_ball_pos_x of Inl e \<Rightarrow> Inl e | Inr ball_pos_x \<Rightarrow>
                (case argmax pred_ball_pos_y of Inl e \<Rightarrow> Inl e | Inr ball_pos_y \<Rightarrow>
                   Inr (int ball_pos_x, int ball_pos_y))))"

definition crop_window :: "int \<Rightarrow> int \<Rightarrow> int \<Rightarrow> int \<Rightarrow> real \<Rightarrow> real \<Rightarrow> real list \<Rightarrow> error + int \<times> int \<times> int \<times> int" where
  \<comment> \<open>\<open>(x_min, x_max, y_min, y_max)\<close> of one batch element\<close>
  "crop_window w_resize h_resize w_original h_original w_ratio h_ratio row =
     (case ball_pos w_resize h_resize row of Inl e \<Rightarrow> Inl e | Inr (ball_pos_x, ball_pos_y) \<Rightarrow>
        Inr (get_crop_params (adjust_pos ball_pos_x w_ratio) (adjust_pos ball_pos_y h_ratio)
               w_resize h_resize w_original h_original))"

definition pad_offsets :: "int \<Rightarrow> int \<Rightarrow> int \<times> int \<times> int \<times> int \<Rightarrow> int \<times> int" where
  \<comment> \<open>\<open>(x_pad, y_pad)\<close>\<close>
  "pad_offsets w_resize h_resize win =
     (case win of (x_min, x_max, y_min, y_max) \<Rightarrow>
        (py_int (real_of_int (w_resize - (x_max - x_min)) / 2),
         py_int (real_of_int (h_resize - (y_max - y_min)) / 2)))"

definition crop_step :: "int \<Rightarrow> int \<Rightarrow> ('a::zero) tensor4 \<Rightarrow> real \<Rightarrow> real \<Rightarrow> real list list \<Rightarrow> nat \<Rightarrow> 'a tensor4 \<Rightarrow> error + 'a tensor4" where
  \<comment> \<open>the body of the loop over the batch\<close>
  "crop_step w_resize h_resize original_batch_input w_ratio h_ratio pred_ball_global_mask idx input_ball_local =
     (if length pred_ball_global_mask \<le> idx then Inl IndexError
      else (case crop_window w_resize h_resize (int (dim_w original_batch_input)) (int (dim_h original_batch_input))
                   w_ratio h_ratio (pred_ball_global_mask ! idx) of
              Inl e \<Rightarrow> Inl e
            | Inr (x_min, x_max, y_min, y_max) \<Rightarrow>
                (let h_crop = y_max - y_min; w_crop = x_max - x_min
                 in if h_crop \<noteq> h_resize \<or> w_crop \<noteq> w_resize
                    then (case pad_offsets w_resize h_resize (x_min, x_max, y_min, y_max) of (x_pad, y_pad) \<Rightarrow>
                            assign_hw input_ball_local idx y_pad (y_pad + h_crop) x_pad (x_pad + w_crop)
                              (crop_hw original_batch_input idx y_min y_max x_min x_max))
                    else assign_hw input_ball_local idx 0 (int (dim_h input_ball_local)) 0 (int (dim_w input_ball_local))
                           (crop_hw original_batch_input idx y_min y_max x_min x_max))))"

fun crop_loop :: "int \<Rightarrow> int \<Rightarrow> ('a::zero) tensor4 \<Rightarrow> real \<Rightarrow> real \<Rightarrow> real list list \<Rightarrow> nat list \<Rightarrow> 'a tensor4 \<Rightarrow> error + 'a tensor4" where
  "crop_loop w_resize h_resize original w_ratio h_ratio pmask [] input_ball_local = Inr input_ball_local"
| "crop_loop w_resize h_resize original w_ratio h_ratio pmask (idx # idxs) input_ball_local =
     (case crop_step w_resize h_resize original w_ratio h_ratio pmask idx input_ball_local of
        Inl e \<Rightarrow> Inl e
      | Inr t \<Rightarrow> crop_loop w_resize h_resize original w_ratio h_ratio pmask idxs t)"

definition crop_original_batch :: "int \<Rightarrow> int \<Rightarrow> ('a::zero) tensor4 \<Rightarrow> 'a tensor4 \<Rightarrow> real list list \<Rightarrow> error + 'a tensor4" where
  "crop_original_batch w_resize h_resize original_batch_input resize_batch_input pred_ball_global =
     (if h_resize = 0 \<or> w_resize = 0 then Inl ZeroDivisionError
      else let b_size = dim_b original_batch_input;
               h_ratio = real (dim_h original_batch_input) / real_of_int h_resize;
               w_ratio = real (dim_w original_batch_input) / real_of_int w_resize;
               pred_ball_global_mask = mask_pred pred_ball_global;
               input_ball_local = zeros_like resize_batch_input
           in crop_loop w_resize h_resize original_batch_input w_ratio h_ratio pred_ball_global_mask
                [0..<b_size] input_ball_local)"

definition element_window :: "int \<Rightarrow> int \<Rightarrow> 'a tensor4 \<Rightarrow> real list list \<Rightarrow> nat \<Rightarrow> error + int \<times> int \<times> int \<times> int" where
  \<comment> \<open>the crop window that \<open>crop_original_batch\<close> computes for batch element \<open>idx\<close>;
      a missing row of the prediction is an IndexError, as in the loop body\<close>
  "element_window w_resize h_resize original_batch_input pred_ball_global idx =
     (if length (mask_pred pred_ball_global) \<le> idx then Inl IndexError
      else crop_window w_resize h_resize (int (dim_w original_batch_input)) (int (dim_h original_batch_input))
             (real (dim_w original_batch_input) / real_of_int w_resize)
             (real (dim_h original_batch_input) / real_of_int h_resize)
             (mask_pred pred_ball_global ! idx))"

definition batch_shapes_ok :: "int \<Rightarrow> int \<Rightarrow> 'a tensor4 \<Rightarrow> 'a tensor4 \<Rightarrow> real list list \<Rightarrow> bool" where
  \<comment> \<open>the shapes of the docstring: original \<open>(batch_size, C, H, W)\<close>, resized
      \<open>(batch_size, C, h_resize, w_resize)\<close>, prediction \<open>(batch_size, w_resize + h_resize)\<close>,
      no dimension of a frame empty\<close>
  "batch_shapes_ok w_resize h_resize original_batch_input resize_batch_input pred_ball_global \<longleftrightarrow>
     0 < w_resize \<and> 0 < h_resize \<and>
     0 < dim_w original_batch_input \<and> 0 < dim_h original_batch_input \<and>
     dim_b resize_batch_input = dim_b original_batch_input \<and>
     dim_c resize_batch_input = dim_c original_batch_input \<and>
     int (dim_w resize_batch_input) = w_resize \<and> int (dim_h resize_batch_input) = h_resize \<and>
     length pred_ball_global = dim_b original_batch_input \<and>
     list_all (\<lambda>row. int (length row) = w_resize + h_resize) pred_ball_global"

section \<open>models/TTNet.py: forward\<close>

text \<open>
  The convolutional stages are compositions of framework layers with learned weights; they
  are fields of the network, as the submodules are attributes of the class, and are taken
  as functions of their input (evaluation mode: no dropout noise, no batch-norm update) that
  may fail on a shape they do not accept. \<open>BallDetection.forward\<close> returns
  \<open>(out, features, out_block2, out_block3, out_block4, out_block5)\<close>.
\<close>

type_synonym ball_out =
  "real list list \<times> real tensor4 \<times> real tensor4 \<times> real tensor4 \<times> real tensor4 \<times> real tensor4"

record ttnet =
  ball_global_stage :: "real tensor4 \<Rightarrow> error + ball_out"
  ball_local_stage :: "real tensor4 \<Rightarrow> error + ball_out"
  events_head :: "real tensor4 \<Rightarrow> error + real list list"
  segmentation :: "real tensor4 \<Rightarrow> real tensor4 \<Rightarrow> real tensor4 \<Rightarrow> real tensor4 \<Rightarrow> error + real tensor4"
  net_w_resize :: int
  net_h_resize :: int

definition cat_channels :: "'a tensor4 \<Rightarrow> 'a tensor4 \<Rightarrow> error + 'a tensor4" where
  \<comment> \<open>\<open>torch.cat((a, b), dim=1)\<close>\<close>
  "cat_channels a b =
     (if dim_b a = dim_b b \<and> dim_h a = dim_h b \<and> dim_w a = dim_w b
      then Inr \<lparr>dim_b = dim_b a, dim_c = dim_c a + dim_c b, dim_h = dim_h a, dim_w = dim_w a,
                elem = \<lambda>n c y x. if c < dim_c a then elem a n c y x else elem b n (c - dim_c a) y x\<rparr>
      else Inl RuntimeError)"

definition events_spotting :: "ttnet \<Rightarrow> real tensor4 \<Rightarrow> real tensor4 \<Rightarrow> error + real list list" where
  \<comment> \<open>\<open>EventsSpotting.forward\<close>: the layers after the concatenation are \<open>events_head\<close>\<close>
  "events_spotting net global_features local_features =
     (case cat_channels global_features local_features of
        Inl e \<Rightarrow> Inl e
      | Inr input_eventspotting \<Rightarrow> events_head net input_eventspotting)"

definition forward :: "ttnet \<Rightarrow> real tensor4 \<Rightarrow> real tensor4 \<Rightarrow>
    error + real list list \<times> real list list \<times> real list list \<times> real tensor4" where
  "forward net original_batch_input resize_batch_input =
     (case ball_global_stage net resize_batch_input of
        Inl e \<Rightarrow> Inl e
      | Inr (pred_ball_global, global_features, out_block2, out_block3, out_block4, out_block5) \<Rightarrow>
     (case crop_original_batch (net_w_resize net) (net_h_resize net)
             original_batch_input resize_batch_input pred_ball_global of
        Inl e \<Rightarrow> Inl e
      | Inr input_ball_local \<Rightarrow>
     (case ball_local_stage net input_ball_local of
        Inl e \<Rightarrow> Inl e
      | Inr (pred_ball_local, local_features, l2, l3, l4, l5) \<Rightarrow>
     (case events_spotting net global_features local_features of
        Inl e \<Rightarrow> Inl e
      | Inr pred_eventspotting \<Rightarrow>
     (case segmentation net out_block2 out_block3 out_block4 out_block5 of
        Inl e \<Rightarrow> Inl e
      | Inr pred_segmentation \<Rightarrow>
          Inr (pred_ball_global, pred_ball_local, pred_eventspotting, pred_segmentation))))))"

section \<open>Calls between the modules\<close>

text \<open>
  A Python call binds its positional and keyword arguments to the parameters of the callee
  and raises TypeError when they do not fit; unpacking a tuple into a different number of
  names raises ValueError. A signature lists the parameters after \<open>self\<close>; the first
  \<open>required\<close> of them have no default.
\<close>

record py_signature =
  params :: "string list"
  required :: nat

definition py_bind :: "py_signature \<Rightarrow> nat \<Rightarrow> string list \<Rightarrow> error + unit" where
  \<comment> \<open>\<open>n_positional\<close> positional arguments and the keyword arguments \<open>keywords\<close>\<close>
  "py_bind sig n_positional keywords =
     (if length (params sig) < n_positional then Inl TypeError
      else if list_ex (\<lambda>k. k \<notin> set (params sig)) keywords then Inl TypeError
      else if list_ex (\<lambda>k. k \<in> set (take n_positional (params sig))) keywords then Inl TypeError
      else if list_ex (\<lambda>p. p \<notin> set keywords) (drop n_positional (take (required sig) (params sig)))
           then Inl TypeError
      else Inr ())"

definition py_unpack :: "nat \<Rightarrow> nat \<Rightarrow> error + unit" where
  \<comment> \<open>unpacking a tuple of \<open>n_values\<close> values into \<open>n_targets\<close> names\<close>
  "py_unpack n_targets n_values = (if n_targets = n_values then Inr () else Inl ValueError)"

definition TTNet_init_sig :: py_signature where
  \<comment> \<open>\<open>def __init__(self, dropout_p, input_size=(320, 128))\<close>\<close>
  "TTNet_init_sig = \<lparr>params = [''dropout_p'', ''input_size''], required = 1\<rparr>"

definition TTNet_forward_sig :: py_signature where
  \<comment> \<open>\<open>def forward(self, original_batch_input, resize_batch_input)\<close>\<close>
  "TTNet_forward_sig = \<lparr>params = [''original_batch_input'', ''resize_batch_input''], required = 2\<rparr>"

definition Unbalance_Loss_Model_init_sig :: py_signature where
  \<comment> \<open>\<open>def __init__(self, model, num_events=2, weights_events=(1, 3), input_size=(320, 128),
      device=None)\<close>\<close>
  "Unbalance_Loss_Model_init_sig =
     \<lparr>params = [''model'', ''num_events'', ''weights_events'', ''input_size'', ''device''], required = 1\<rparr>"

section \<open>models/unbalanced_loss_model.py\<close>

definition Unbalance_Loss_Model_forward ::
   "ttnet \<Rightarrow>
    (real list list \<times> real list list \<times> real list list \<times> real tensor4 \<Rightarrow>
       (real \<times> real) list \<Rightarrow> int list \<Rightarrow> real tensor4 \<Rightarrow> error + 'r) \<Rightarrow>
    real tensor4 \<Rightarrow> real tensor4 \<Rightarrow> (real \<times> real) list \<Rightarrow> (real \<times> real) list \<Rightarrow> int list \<Rightarrow>
    real tensor4 \<Rightarrow> error + 'r" where
  \<comment> \<open>\<open>self.model(original_batch_input, resize_batch_input, org_ball_pos_xy)\<close> passes three
      positional arguments and unpacks five values from the four that \<open>forward\<close> returns;
      \<open>rest\<close> is the remainder of the method (the targets and the four losses, whose
      classes are in \<open>losses/losses.py\<close>)\<close>
  "Unbalance_Loss_Model_forward net rest original_batch_input resize_batch_input
       org_ball_pos_xy global_ball_pos_xy event_class target_seg =
     (case py_bind TTNet_forward_sig 3 [] of
        Inl e \<Rightarrow> Inl e
      | Inr u \<Rightarrow>
     (case forward net original_batch_input resize_batch_input of
        Inl e \<Rightarrow> Inl e
      | Inr outs \<Rightarrow>
     (case py_unpack 5 4 of
        Inl e \<Rightarrow> Inl e
      | Inr u \<Rightarrow> rest outs global_ball_pos_xy event_class target_seg)))"

section \<open>models/model_utils.py: create_model\<close>

record configs =
  arch :: string
  multitask_learning :: bool

definition create_model :: "configs \<Rightarrow> py_signature \<Rightarrow> error + unit" where
  \<comment> \<open>\<open>multi_task_sig\<close> is the signature of \<open>Multi_Task_Learning_Model.__init__\<close>, whose
      module is not among the sources; the result stands for the constructed model\<close>
  "create_model cfg multi_task_sig =
     (case (if arch cfg = ''ttnet''
            then py_bind TTNet_init_sig 0 [''dropout_p'', ''tasks'', ''input_size'', ''thresh_ball_pos_mask'']
            else Inl AssertionError) of
        Inl e \<Rightarrow> Inl e
      | Inr ttnet_model \<Rightarrow>
          if multitask_learning cfg
          then py_bind multi_task_sig 1
                 [''tasks'', ''num_events'', ''weights_events'', ''input_size'', ''sigma'',
                  ''thresh_ball_pos_mask'', ''device'']
          else py_bind Unbalance_Loss_Model_init_sig 1
                 [''tasks_loss_weight'', ''weights_events'', ''input_size'', ''sigma'',
                  ''thresh_ball_pos_mask'', ''device''])"

section \<open>data_process/ttnet_data_utils.py\<close>

definition create_target_events :: "int \<Rightarrow> error + real list" where
  "create_target_events event_class =
     (let target_event = replicate 2 0
      in if event_class < 2 then py_setitem target_event event_class 1
         else Inr target_event)"

definition gaussian_1d :: "real \<Rightarrow> real \<Rightarrow> real \<Rightarrow> real" where
  \<comment> \<open>one element of \<open>torch.exp(- (((pos - muy) / sigma) ** 2) / 2)\<close>\<close>
  "gaussian_1d pos muy sigma = exp (- (((pos - muy) / sigma) ^ 2) / 2)"

definition create_target_ball :: "real \<times> real \<Rightarrow> real \<Rightarrow> nat \<Rightarrow> nat \<Rightarrow> real \<Rightarrow> real list" where
  \<comment> \<open>\<open>w\<close> and \<open>h\<close> are the sizes after \<open>int(w), int(h)\<close>; the two slice assignments
      \<open>target[:w] = ...\<close> and \<open>target[w:] = ...\<close> replace the first \<open>w\<close> and the remaining
      entries; the last step zeroes the entries below \<open>thresh_mask\<close>\<close>
  "create_target_ball ball_position_xy sigma w h thresh_mask =
     (let target_ball_position = replicate (w + h) 0
      in if real w > fst ball_position_xy \<and> fst ball_position_xy > 0 \<and>
            real h > snd ball_position_xy \<and> snd ball_position_xy > 0
         then (let x_pos = [0..<w];
                   target1 = map (\<lambda>pos. gaussian_1d (real pos) (fst ball_position_xy) sigma) x_pos
                               @ drop w target_ball_position;
                   y_pos = [0..<h];
                   target2 = take w target1
                               @ map (\<lambda>pos. gaussian_1d (real pos) (snd ball_position_xy) sigma) y_pos
               in map (\<lambda>v. if v < thresh_mask then 0 else v) target2)
         else target_ball_position)"

section \<open>models/model_utils.py: load_weights_local_stage\<close>

text \<open>
  A state dict is an association list with distinct keys, in insertion order; storing under
  a key replaces the value of an existing key in place and appends a new key at the end,
  as a Python \<open>dict\<close> does.
\<close>

fun split_on :: "char \<Rightarrow> string \<Rightarrow> string list" where
  \<comment> \<open>\<open>s.split(c)\<close>\<close>
  "split_on c [] = [[]]"
| "split_on c (x # xs) =
     (if x = c then [] # split_on c xs
      else (case split_on c xs of [] \<Rightarrow> [[x]] | p # ps \<Rightarrow> (x # p) # ps))"

fun join_with :: "string \<Rightarrow> string list \<Rightarrow> string" where
  \<comment> \<open>\<open>sep.join(parts)\<close>\<close>
  "join_with sep [] = []"
| "join_with sep [p] = p"
| "join_with sep (p # q # ps) = p @ sep @ join_with sep (q # ps)"

definition dict_set :: "('k \<times> 'v) list \<Rightarrow> 'k \<Rightarrow> 'v \<Rightarrow> ('k \<times> 'v) list" where
  \<comment> \<open>\<open>d[k] = v\<close>\<close>
  "dict_set d k v = AList.update k v d"

definition dict_merge :: "('k \<times> 'v) list \<Rightarrow> ('k \<times> 'v) list \<Rightarrow> ('k \<times> 'v) list" where
  \<comment> \<open>\<open>{**a, **b}\<close>\<close>
  "dict_merge a b = fold (\<lambda>(k, v) d. dict_set d k v) b a"

fun local_weights_loop :: "(string \<times> 'v) list \<Rightarrow> (string \<times> 'v) list \<Rightarrow> error + (string \<times> 'v) list" where
  \<comment> \<open>the loop over \<open>pretrained_dict.items()\<close>, with \<open>local_weights_dict\<close> as accumulator\<close>
  "local_weights_loop [] local_weights_dict = Inr local_weights_dict"
| "local_weights_loop ((layer_name, v) # items) local_weights_dict =
     (if sublist ''ball_global_stage'' layer_name
      then (let layer_name_parts = split_on CHR ''.'' layer_name
            in (case py_setitem layer_name_parts 1 ''ball_local_stage'' of
                  Inl e \<Rightarrow> Inl e
                | Inr layer_name_parts' \<Rightarrow>
                    (let local_name = join_with ''.'' layer_name_parts'
                     in local_weights_loop items (dict_set local_weights_dict local_name v))))
      else local_weights_loop items local_weights_dict)"

definition load_weights_local_stage :: "(string \<times> 'v) list \<Rightarrow> error + (string \<times> 'v) list" where
  "load_weights_local_stage pretrained_dict =
     (case local_weights_loop pretrained_dict [] of
        Inl e \<Rightarrow> Inl e
      | Inr local_weights_dict \<Rightarrow> Inr (dict_merge pretrained_dict local_weights_dict))"

definition local_name_of :: "string \<Rightarrow> string" where
  \<comment> \<open>the key with its second dot-separated component replaced by \<open>ball_local_stage\<close>\<close>
  "local_name_of layer_name = join_with ''.'' ((split_on CHR ''.'' layer_name)[1 := ''ball_local_stage''])"

definition global_stage_second :: "string \<Rightarrow> bool" where
  \<comment> \<open>the key has the form \<open><prefix>.ball_global_stage\<close> or \<open><prefix>.ball_global_stage.<rest>\<close>\<close>
  "global_stage_second layer_name \<longleftrightarrow>
     (let parts = split_on CHR ''.'' layer_name
      in 1 < length parts \<and> parts ! 1 = ''ball_global_stage'')"

definition local_items :: "(string \<times> 'v) list \<Rightarrow> (string \<times> 'v) list" where
  \<comment> \<open>the entries that the loop stores in \<open>local_weights_dict\<close>, in order\<close>
  "local_items items =
     map (\<lambda>(k, v). (local_name_of k, v)) (filter (\<lambda>(k, v). sublist ''ball_global_stage'' k) items)"

definition first_max :: "real list \<Rightarrow> nat \<Rightarrow> bool" where
  \<comment> \<open>\<open>i\<close> is the index of the first maximal entry of \<open>xs\<close>\<close>
  "first_max xs i \<longleftrightarrow>
     i < length xs \<and> list_all (\<lambda>v. v \<le> xs ! i) xs \<and> list_all (\<lambda>v. v < xs ! i) (take i xs)"

definition mask_value :: "real \<Rightarrow> real" where
  \<comment> \<open>one entry of \<open>pred_ball_global * mask\<close>\<close>
  "mask_value v = v * (if 1 / 100 < v then 1 else 0)"

section \<open>inference/demo.py: the final ball position\<close>

definition prediction_ball_final :: "int \<times> int \<Rightarrow> int \<times> int \<Rightarrow> int \<times> int" where
  \<comment> \<open>\<open>w_ratio = 1920. / 320.\<close>, \<open>h_ratio = 1080. / 128.\<close>\<close>
  "prediction_ball_final prediction_global prediction_local =
     (let w_ratio = 1920 / 320; h_ratio = 1080 / 128
      in (py_int (real_of_int (fst prediction_global) * w_ratio + real_of_int (fst prediction_local) - 320 / 2),
          py_int (real_of_int (snd prediction_global) * h_ratio + real_of_int (snd prediction_local) - 128 / 2)))"

section \<open>Example inputs\<close>

text \<open>
  One batch element of 27 channels at the repository's sizes (1080 x 1920 original, 128 x 320
  resized), with three global predictions: a peak at the last grid cell (319, 127), a peak at
  the first grid cell (0, 0), and no peak at all.
\<close>

definition example_original :: "real tensor4" where
  "example_original = \<lparr>dim_b = 1, dim_c = 27, dim_h = 1080, dim_w = 1920,
     elem = \<lambda>b c y x. real (1920 * y + x) + 1\<rparr>"

definition example_resize :: "real tensor4" where
  "example_resize = \<lparr>dim_b = 1, dim_c = 27, dim_h = 128, dim_w = 320, elem = \<lambda>b c y x. 1\<rparr>"

definition example_pred_corner :: "real list list" where
  "example_pred_corner = [replicate 319 0 @ [1] @ replicate 127 0 @ [1]]"

definition example_pred_origin :: "real list list" where
  "example_pred_origin = [[1] @ replicate 319 0 @ [1] @ replicate 127 0]"

definition example_pred_zero :: "real list list" where
  "example_pred_zero = [replicate 448 0]"

definition example_state_dict :: "(string \<times> nat) list" where
  "example_state_dict =
     [(''model.ball_global_stage.conv1.weight'', 1),
      (''model.ball_local_stage.conv1.weight'', 2),
      (''model.segmentation.conv1.weight'', 3)]"

definition example_net :: ttnet where
  \<comment> \<open>stand-ins for the trained stages: the global stage predicts no ball and passes its
      input on as every feature map, the local stage reports the size of its input\<close>
  "example_net =
     \<lparr>ball_global_stage = \<lambda>t. Inr (example_pred_zero, t, t, t, t, t),
      ball_local_stage = \<lambda>t. Inr ([[real (dim_h t), real (dim_w t)]], t, t, t, t, t),
      events_head = \<lambda>t. Inr [[real (dim_c t)]],
      segmentation = \<lambda>b2 b3 b4 b5. Inr b2,
      net_w_resize = 320, net_h_resize = 128\<rparr>"

definition example_pred_peak :: "real list list" where
  \<comment> \<open>a peak at grid cell (100, 50)\<close>
  "example_pred_peak = [(replicate 100 0 @ 1 # replicate 219 0) @ (replicate 50 0 @ 1 # replicate 77 0)]"

section \<open>Lemmas\<close>

subsection \<open>Coordinates of the crop window\<close>

lemma py_int_nonneg: "0 \<le> r \<Longrightarrow> py_int r = \<lfloor>r\<rfloor>"
  by (simp add: py_int_def)

lemma py_int_of_int: "py_int (real_of_int k) = k"
  by (simp add: py_int_def)

lemma py_int_half: "0 \<le> n \<Longrightarrow> py_int (real_of_int n / 2) = n div 2"
  by (simp add: py_int_def floor_divide_of_int_eq [where ?'a = real, of n 2, simplified])

lemma adjust_pos_bounds:
  assumes "0 \<le> p" "p < w" "0 < W"
  shows "0 \<le> adjust_pos p (real_of_int W / real_of_int w) \<and> adjust_pos p (real_of_int W / real_of_int w) < W"
proof -
  have w: "0 < w" using assms by linarith
  let ?r = "real_of_int p * (real_of_int W / real_of_int w)"
  have nn: "0 \<le> ?r" using assms w by simp
  have "?r < real_of_int W"
  proof -
    have "real_of_int p / real_of_int w < 1" using assms w by simp
    then have "real_of_int W * (real_of_int p / real_of_int w) < real_of_int W * 1"
      using assms(3) by (intro mult_strict_left_mono) simp_all
    then show ?thesis by (simp add: mult.commute)
  qed
  then have "\<lfloor>?r\<rfloor> < W" by (simp add: floor_less_iff)
  moreover have "0 \<le> \<lfloor>?r\<rfloor>" using nn by simp
  ultimately show ?thesis using nn by (simp add: adjust_pos_def py_int_def)
qed

lemma get_crop_params_bounds:
  assumes "0 \<le> xc" "xc < W" "0 \<le> yc" "yc < H" "0 < w" "0 < h"
    and "get_crop_params xc yc w h W H = (x_min, x_max, y_min, y_max)"
  shows "0 \<le> x_min \<and> x_min \<le> x_max \<and> x_max \<le> W \<and> x_max - x_min \<le> w \<and>
         0 \<le> y_min \<and> y_min \<le> y_max \<and> y_max \<le> H \<and> y_max - y_min \<le> h"
proof -
  have hw: "py_int (real_of_int w / 2) = w div 2" "py_int (real_of_int h / 2) = h div 2"
    using assms by (simp_all add: py_int_half)
  from assms(7) have
    "x_min = max 0 (xc - w div 2)" "x_max = min W (x_min + w)"
    "y_min = max 0 (yc - h div 2)" "y_max = min H (y_min + h)"
    unfolding get_crop_params_def Let_def hw by auto
  with assms(1-6) show ?thesis by linarith
qed

lemma pad_offsets_bounds:
  assumes "x_min \<le> x_max" "x_max - x_min \<le> w" "y_min \<le> y_max" "y_max - y_min \<le> h"
    and "pad_offsets w h (x_min, x_max, y_min, y_max) = (x_pad, y_pad)"
  shows "0 \<le> x_pad \<and> x_pad + (x_max - x_min) \<le> w \<and> 0 \<le> y_pad \<and> y_pad + (y_max - y_min) \<le> h"
proof -
  have "x_pad = (w - (x_max - x_min)) div 2" "y_pad = (h - (y_max - y_min)) div 2"
    using assms py_int_half [of "w - (x_max - x_min)"] py_int_half [of "h - (y_max - y_min)"]
    unfolding pad_offsets_def by simp_all
  with assms(1-4) show ?thesis by linarith
qed

subsection \<open>The grid position\<close>

lemma argmax_from_less: "best_i < i \<Longrightarrow> argmax_from vs i best best_i < i + length vs"
proof (induction vs arbitrary: i best best_i)
  case Nil
  then show ?case by simp
next
  case (Cons v vs)
  have "argmax_from vs (Suc i) v i < Suc i + length vs"
    by (rule Cons.IH) simp
  moreover have "argmax_from vs (Suc i) best best_i < Suc i + length vs"
    by (rule Cons.IH) (use Cons.prems in simp)
  ultimately show ?case by simp
qed

lemma argmax_less: "argmax xs = Inr k \<Longrightarrow> k < length xs"
  using argmax_from_less [of 0 1] by (auto simp: argmax_def split: list.splits)

lemma argmax_defined: "0 < length xs \<Longrightarrow> \<exists>k. argmax xs = Inr k"
  by (cases xs) (simp_all add: argmax_def)

lemma py_slice_take: "0 \<le> w \<Longrightarrow> py_slice xs 0 w = take (nat w) xs"
  by (auto simp: py_slice_def slice_indices_def min_def)

lemma py_slice_drop: "0 \<le> w \<Longrightarrow> py_slice xs w (int (length xs)) = drop (nat w) xs"
  by (auto simp: py_slice_def slice_indices_def min_def)

lemma ball_pos_in_grid:
  assumes "0 < w" "0 < h" "int (length row) = w + h"
  shows "\<exists>px py. ball_pos w h row = Inr (px, py) \<and> 0 \<le> px \<and> px < w \<and> 0 \<le> py \<and> py < h"
proof (cases "sum_list (py_slice row 0 w) = 0 \<or> sum_list (py_slice row w (int (length row))) = 0")
  case True
  then have "ball_pos w h row = Inr (w div 2, h div 2)"
    using assms by (simp add: ball_pos_def Let_def py_int_half)
  then show ?thesis using assms by auto
next
  case False
  have lx: "length (py_slice row 0 w) = nat w"
    using assms by (simp add: py_slice_take)
  have "length (drop (nat w) row) = nat h"
    using assms by simp
  then have ly: "length (py_slice row w (int (length row))) = nat h"
    using assms(1) py_slice_drop [of w row] by simp
  have "0 < length (py_slice row 0 w)" using lx assms(1) by simp
  then obtain ax where ax: "argmax (py_slice row 0 w) = Inr ax"
    using argmax_defined by blast
  have "0 < length (py_slice row w (int (length row)))" using ly assms(2) by simp
  then obtain ay where ay: "argmax (py_slice row w (int (length row))) = Inr ay"
    using argmax_defined by blast
  have "ax < nat w" "ay < nat h" using argmax_less [OF ax] argmax_less [OF ay] lx ly by simp_all
  moreover have "ball_pos w h row = Inr (int ax, int ay)"
    using False ax ay by (simp add: ball_pos_def Let_def)
  ultimately show ?thesis by auto
qed

subsection \<open>Slices, the loop body and the loop\<close>

lemma slice_indices_in_range:
  "0 \<le> lo \<Longrightarrow> lo \<le> hi \<Longrightarrow> hi \<le> int n \<Longrightarrow> slice_indices lo hi n = (nat lo, nat (hi - lo))"
  by (simp add: slice_indices_def Let_def min_def)

lemma crop_window_bounds:
  assumes "0 < w" "0 < h" "0 < W" "0 < H" "int (length row) = w + h"
  shows "\<exists>x_min x_max y_min y_max.
           crop_window w h W H (real_of_int W / real_of_int w) (real_of_int H / real_of_int h) row
             = Inr (x_min, x_max, y_min, y_max) \<and>
           0 \<le> x_min \<and> x_min \<le> x_max \<and> x_max \<le> W \<and> x_max - x_min \<le> w \<and>
           0 \<le> y_min \<and> y_min \<le> y_max \<and> y_max \<le> H \<and> y_max - y_min \<le> h"
proof -
  obtain px py where p: "ball_pos w h row = Inr (px, py)" "0 \<le> px" "px < w" "0 \<le> py" "py < h"
    using ball_pos_in_grid [OF assms(1,2,5)] by blast
  let ?xc = "adjust_pos px (real_of_int W / real_of_int w)"
  let ?yc = "adjust_pos py (real_of_int H / real_of_int h)"
  have xc: "0 \<le> ?xc" "?xc < W" using adjust_pos_bounds [OF p(2,3) assms(3)] by simp_all
  have yc: "0 \<le> ?yc" "?yc < H" using adjust_pos_bounds [OF p(4,5) assms(4)] by simp_all
  obtain x_min x_max y_min y_max where g: "get_crop_params ?xc ?yc w h W H = (x_min, x_max, y_min, y_max)"
    by (metis prod_cases4)
  have "crop_window w h W H (real_of_int W / real_of_int w) (real_of_int H / real_of_int h) row
          = Inr (x_min, x_max, y_min, y_max)"
    using p(1) g by (simp add: crop_window_def)
  then show ?thesis
    using get_crop_params_bounds [OF xc yc assms(1,2) g] by blast
qed

lemma assign_hw_crop_hw:
  fixes t original :: "'a tensor4"
  assumes src: "0 \<le> x_min" "x_min \<le> x_max" "x_max \<le> int (dim_w original)"
               "0 \<le> y_min" "y_min \<le> y_max" "y_max \<le> int (dim_h original)"
    and dst: "0 \<le> x_pad" "x_pad + (x_max - x_min) \<le> int (dim_w t)"
             "0 \<le> y_pad" "y_pad + (y_max - y_min) \<le> int (dim_h t)"
    and idx: "idx < dim_b t" and ch: "dim_c t = dim_c original"
  shows "\<exists>t'. assign_hw t idx y_pad (y_pad + (y_max - y_min)) x_pad (x_pad + (x_max - x_min))
                 (crop_hw original idx y_min y_max x_min x_max) = Inr t' \<and>
           dim_b t' = dim_b t \<and> dim_c t' = dim_c t \<and> dim_h t' = dim_h t \<and> dim_w t' = dim_w t \<and>
           (\<forall>b c y x. c < dim_c t \<longrightarrow> elem t' b c y x =
              (if b = idx \<and> y_pad \<le> int y \<and> int y < y_pad + (y_max - y_min) \<and>
                  x_pad \<le> int x \<and> int x < x_pad + (x_max - x_min)
               then elem original idx c (nat (y_min + (int y - y_pad))) (nat (x_min + (int x - x_pad)))
               else elem t b c y x))"
proof -
  have s1: "slice_indices y_min y_max (dim_h original) = (nat y_min, nat (y_max - y_min))"
    and s2: "slice_indices x_min x_max (dim_w original) = (nat x_min, nat (x_max - x_min))"
    using src by (simp_all add: slice_indices_in_range)
  have d1: "slice_indices y_pad (y_pad + (y_max - y_min)) (dim_h t) = (nat y_pad, nat (y_max - y_min))"
    using slice_indices_in_range [of y_pad "y_pad + (y_max - y_min)" "dim_h t"] src dst by simp
  have d2: "slice_indices x_pad (x_pad + (x_max - x_min)) (dim_w t) = (nat x_pad, nat (x_max - x_min))"
    using slice_indices_in_range [of x_pad "x_pad + (x_max - x_min)" "dim_w t"] src dst by simp
  let ?v = "crop_hw original idx y_min y_max x_min x_max"
  have v: "size_c ?v = dim_c original" "size_h ?v = nat (y_max - y_min)" "size_w ?v = nat (x_max - x_min)"
    "at3 ?v = (\<lambda>c y x. elem original idx c (nat y_min + y) (nat x_min + x))"
    by (simp_all add: crop_hw_def s1 s2)
  let ?t' = "t\<lparr>elem := \<lambda>b c y x.
               if b = idx \<and> nat y_pad \<le> y \<and> y < nat y_pad + nat (y_max - y_min) \<and>
                  nat x_pad \<le> x \<and> x < nat x_pad + nat (x_max - x_min)
               then at3 ?v (bidx (size_c ?v) c) (bidx (size_h ?v) (y - nat y_pad)) (bidx (size_w ?v) (x - nat x_pad))
               else elem t b c y x\<rparr>"
  have eq: "assign_hw t idx y_pad (y_pad + (y_max - y_min)) x_pad (x_pad + (x_max - x_min)) ?v = Inr ?t'"
    using idx ch unfolding assign_hw_def d1 d2 by (simp add: v expands_to_def)
  have pt: "elem ?t' b c y x =
              (if b = idx \<and> y_pad \<le> int y \<and> int y < y_pad + (y_max - y_min) \<and>
                  x_pad \<le> int x \<and> int x < x_pad + (x_max - x_min)
               then elem original idx c (nat (y_min + (int y - y_pad))) (nat (x_min + (int x - x_pad)))
               else elem t b c y x)" if c: "c < dim_c t" for b c y x
  proof -
    define P where "P \<longleftrightarrow> b = idx \<and> nat y_pad \<le> y \<and> y < nat y_pad + nat (y_max - y_min) \<and>
                  nat x_pad \<le> x \<and> x < nat x_pad + nat (x_max - x_min)"
    define Q where "Q \<longleftrightarrow> b = idx \<and> y_pad \<le> int y \<and> int y < y_pad + (y_max - y_min) \<and>
                  x_pad \<le> int x \<and> int x < x_pad + (x_max - x_min)"
    define A where "A = at3 ?v (bidx (size_c ?v) c) (bidx (size_h ?v) (y - nat y_pad)) (bidx (size_w ?v) (x - nat x_pad))"
    define B where "B = elem original idx c (nat (y_min + (int y - y_pad))) (nat (x_min + (int x - x_pad)))"
    have sel: "elem ?t' b c y x = (if P then A else elem t b c y x)"
      unfolding P_def A_def by simp
    have PQ: "P \<longleftrightarrow> Q"
      unfolding P_def Q_def using src dst by arith
    have AB: "A = B" if P
    proof -
      from that have r: "nat y_pad \<le> y" "y < nat y_pad + nat (y_max - y_min)"
          "nat x_pad \<le> x" "x < nat x_pad + nat (x_max - x_min)"
        unfolding P_def by simp_all
      have kc: "bidx (dim_c original) c = c" using c ch by (simp add: bidx_def)
      have ky: "bidx (nat (y_max - y_min)) (y - nat y_pad) = y - nat y_pad"
        using r by (auto simp: bidx_def)
      have kx: "bidx (nat (x_max - x_min)) (x - nat x_pad) = x - nat x_pad"
        using r by (auto simp: bidx_def)
      have iy: "nat y_min + (y - nat y_pad) = nat (y_min + (int y - y_pad))"
        using r src dst by linarith
      have ix: "nat x_min + (x - nat x_pad) = nat (x_min + (int x - x_pad))"
        using r src dst by linarith
      show ?thesis unfolding A_def B_def v kc ky kx iy ix ..
    qed
    have "elem ?t' b c y x = (if Q then B else elem t b c y x)"
      using sel PQ AB by (cases P) simp_all
    then show ?thesis unfolding Q_def B_def .
  qed
  show ?thesis
    apply (rule exI [of _ ?t'])
    using eq pt by simp
qed

lemma pad_offsets_full: "pad_offsets w h (x_min, x_min + w, y_min, y_min + h) = (0, 0)"
  by (simp add: pad_offsets_def py_int_def)

lemma crop_step_result:
  fixes t original :: "('a::zero) tensor4"
  assumes pos: "0 < w" "0 < h" "0 < dim_w original" "0 < dim_h original"
    and row: "idx < length pmask" "int (length (pmask ! idx)) = w + h"
    and shp: "idx < dim_b t" "dim_c t = dim_c original" "int (dim_w t) = w" "int (dim_h t) = h"
    and win: "crop_window w h (int (dim_w original)) (int (dim_h original))
                (real (dim_w original) / real_of_int w) (real (dim_h original) / real_of_int h)
                (pmask ! idx) = Inr (x_min, x_max, y_min, y_max)"
    and pads: "pad_offsets w h (x_min, x_max, y_min, y_max) = (x_pad, y_pad)"
  shows "\<exists>t'. crop_step w h original (real (dim_w original) / real_of_int w)
                 (real (dim_h original) / real_of_int h) pmask idx t = Inr t' \<and>
           dim_b t' = dim_b t \<and> dim_c t' = dim_c t \<and> dim_h t' = dim_h t \<and> dim_w t' = dim_w t \<and>
           (\<forall>b c y x. c < dim_c t \<longrightarrow> elem t' b c y x =
              (if b = idx \<and> y_pad \<le> int y \<and> int y < y_pad + (y_max - y_min) \<and>
                  x_pad \<le> int x \<and> int x < x_pad + (x_max - x_min)
               then elem original idx c (nat (y_min + (int y - y_pad))) (nat (x_min + (int x - x_pad)))
               else elem t b c y x))"
proof -
  have bnd: "0 \<le> x_min" "x_min \<le> x_max" "x_max \<le> int (dim_w original)" "x_max - x_min \<le> w"
            "0 \<le> y_min" "y_min \<le> y_max" "y_max \<le> int (dim_h original)" "y_max - y_min \<le> h"
    using crop_window_bounds [of w h "int (dim_w original)" "int (dim_h original)" "pmask ! idx"]
      pos row(2) win by simp_all
  have pb: "0 \<le> x_pad" "x_pad + (x_max - x_min) \<le> w" "0 \<le> y_pad" "y_pad + (y_max - y_min) \<le> h"
    using pad_offsets_bounds [OF bnd(2,4,6,8) pads] by simp_all
  have A: "\<exists>t'. assign_hw t idx y_pad (y_pad + (y_max - y_min)) x_pad (x_pad + (x_max - x_min))
                 (crop_hw original idx y_min y_max x_min x_max) = Inr t' \<and>
           dim_b t' = dim_b t \<and> dim_c t' = dim_c t \<and> dim_h t' = dim_h t \<and> dim_w t' = dim_w t \<and>
           (\<forall>b c y x. c < dim_c t \<longrightarrow> elem t' b c y x =
              (if b = idx \<and> y_pad \<le> int y \<and> int y < y_pad + (y_max - y_min) \<and>
                  x_pad \<le> int x \<and> int x < x_pad + (x_max - x_min)
               then elem original idx c (nat (y_min + (int y - y_pad))) (nat (x_min + (int x - x_pad)))
               else elem t b c y x))"
    using assign_hw_crop_hw [of x_min x_max original y_min y_max x_pad t y_pad idx]
      bnd pb shp by simp
  show ?thesis
  proof (cases "y_max - y_min \<noteq> h \<or> x_max - x_min \<noteq> w")
    case True
    then have "crop_step w h original (real (dim_w original) / real_of_int w)
                 (real (dim_h original) / real_of_int h) pmask idx t =
               assign_hw t idx y_pad (y_pad + (y_max - y_min)) x_pad (x_pad + (x_max - x_min))
                 (crop_hw original idx y_min y_max x_min x_max)"
      unfolding crop_step_def using row(1) win pads by (simp add: Let_def)
    with A show ?thesis by simp
  next
    case False
    then have full: "y_max = y_min + h" "x_max = x_min + w" by simp_all
    have z: "x_pad = 0" "y_pad = 0"
      using pads pad_offsets_full [of w h x_min y_min] unfolding full by simp_all
    have "crop_step w h original (real (dim_w original) / real_of_int w)
                 (real (dim_h original) / real_of_int h) pmask idx t =
               assign_hw t idx 0 (int (dim_h t)) 0 (int (dim_w t))
                 (crop_hw original idx y_min y_max x_min x_max)"
      unfolding crop_step_def using row(1) win False by (simp add: Let_def)
    also have "\<dots> = assign_hw t idx y_pad (y_pad + (y_max - y_min)) x_pad (x_pad + (x_max - x_min))
                 (crop_hw original idx y_min y_max x_min x_max)"
      using shp(3,4) unfolding z full by simp
    finally show ?thesis using A by simp
  qed
qed

lemma crop_loop_result:
  fixes t original :: "('a::zero) tensor4"
  assumes pos: "0 < w" "0 < h" "0 < dim_w original" "0 < dim_h original"
    and idxs: "distinct idxs"
      "\<forall>i\<in>set idxs. i < length pmask \<and> int (length (pmask ! i)) = w + h \<and> i < dim_b t"
    and shp: "dim_c t = dim_c original" "int (dim_w t) = w" "int (dim_h t) = h"
  shows "\<exists>out. crop_loop w h original (real (dim_w original) / real_of_int w)
                 (real (dim_h original) / real_of_int h) pmask idxs t = Inr out \<and>
           dim_b out = dim_b t \<and> dim_c out = dim_c t \<and> dim_h out = dim_h t \<and> dim_w out = dim_w t \<and>
           (\<forall>b c y x. c < dim_c t \<longrightarrow> b \<notin> set idxs \<longrightarrow> elem out b c y x = elem t b c y x) \<and>
           (\<forall>idx\<in>set idxs. \<forall>x_min x_max y_min y_max x_pad y_pad.
              crop_window w h (int (dim_w original)) (int (dim_h original))
                (real (dim_w original) / real_of_int w) (real (dim_h original) / real_of_int h)
                (pmask ! idx) = Inr (x_min, x_max, y_min, y_max) \<longrightarrow>
              pad_offsets w h (x_min, x_max, y_min, y_max) = (x_pad, y_pad) \<longrightarrow>
              (\<forall>c y x. c < dim_c t \<longrightarrow> elem out idx c y x =
                (if y_pad \<le> int y \<and> int y < y_pad + (y_max - y_min) \<and>
                    x_pad \<le> int x \<and> int x < x_pad + (x_max - x_min)
                 then elem original idx c (nat (y_min + (int y - y_pad))) (nat (x_min + (int x - x_pad)))
                 else elem t idx c y x)))"
  using idxs shp
proof (induction idxs arbitrary: t)
  case Nil
  then show ?case by simp
next
  case (Cons i idxs)
  let ?wr = "real (dim_w original) / real_of_int w"
  let ?hr = "real (dim_h original) / real_of_int h"
  let ?W = "int (dim_w original)"
  let ?H = "int (dim_h original)"
  have i: "i < length pmask" "int (length (pmask ! i)) = w + h" "i < dim_b t" "i \<notin> set idxs"
    using Cons.prems(1,2) by simp_all
  obtain x0 x1 y0 y1 where win: "crop_window w h ?W ?H ?wr ?hr (pmask ! i) = Inr (x0, x1, y0, y1)"
    using crop_window_bounds [of w h ?W ?H "pmask ! i"] pos i(2) by auto
  obtain xp yp where pads: "pad_offsets w h (x0, x1, y0, y1) = (xp, yp)"
    by (cases "pad_offsets w h (x0, x1, y0, y1)")
  obtain t' where t': "crop_step w h original ?wr ?hr pmask i t = Inr t'"
      "dim_b t' = dim_b t" "dim_c t' = dim_c t" "dim_h t' = dim_h t" "dim_w t' = dim_w t"
    and el: "\<And>b c y x. c < dim_c t \<Longrightarrow> elem t' b c y x =
              (if b = i \<and> yp \<le> int y \<and> int y < yp + (y1 - y0) \<and>
                  xp \<le> int x \<and> int x < xp + (x1 - x0)
               then elem original i c (nat (y0 + (int y - yp))) (nat (x0 + (int x - xp)))
               else elem t b c y x)"
    using crop_step_result [OF pos i(1,2,3) Cons.prems(3,4,5) win pads] by blast
  have "\<exists>out. crop_loop w h original ?wr ?hr pmask idxs t' = Inr out \<and>
           dim_b out = dim_b t' \<and> dim_c out = dim_c t' \<and> dim_h out = dim_h t' \<and> dim_w out = dim_w t' \<and>
           (\<forall>b c y x. c < dim_c t' \<longrightarrow> b \<notin> set idxs \<longrightarrow> elem out b c y x = elem t' b c y x) \<and>
           (\<forall>idx\<in>set idxs. \<forall>x_min x_max y_min y_max x_pad y_pad.
              crop_window w h ?W ?H ?wr ?hr (pmask ! idx) = Inr (x_min, x_max, y_min, y_max) \<longrightarrow>
              pad_offsets w h (x_min, x_max, y_min, y_max) = (x_pad, y_pad) \<longrightarrow>
              (\<forall>c y x. c < dim_c t' \<longrightarrow> elem out idx c y x =
                (if y_pad \<le> int y \<and> int y < y_pad + (y_max - y_min) \<and>
                    x_pad \<le> int x \<and> int x < x_pad + (x_max - x_min)
                 then elem original idx c (nat (y_min + (int y - y_pad))) (nat (x_min + (int x - x_pad)))
                 else elem t' idx c y x)))"
    by (rule Cons.IH) (use Cons.prems t' in simp_all)
  then obtain out where O:
     "crop_loop w h original ?wr ?hr pmask idxs t' = Inr out \<and>
           dim_b out = dim_b t' \<and> dim_c out = dim_c t' \<and> dim_h out = dim_h t' \<and> dim_w out = dim_w t' \<and>
           (\<forall>b c y x. c < dim_c t' \<longrightarrow> b \<notin> set idxs \<longrightarrow> elem out b c y x = elem t' b c y x) \<and>
           (\<forall>idx\<in>set idxs. \<forall>x_min x_max y_min y_max x_pad y_pad.
              crop_window w h ?W ?H ?wr ?hr (pmask ! idx) = Inr (x_min, x_max, y_min, y_max) \<longrightarrow>
              pad_offsets w h (x_min, x_max, y_min, y_max) = (x_pad, y_pad) \<longrightarrow>
              (\<forall>c y x. c < dim_c t' \<longrightarrow> elem out idx c y x =
                (if y_pad \<le> int y \<and> int y < y_pad + (y_max - y_min) \<and>
                    x_pad \<le> int x \<and> int x < x_pad + (x_max - x_min)
                 then elem original idx c (nat (y_min + (int y - y_pad))) (nat (x_min + (int x - x_pad)))
                 else elem t' idx c y x)))"
    by (rule exE)
  from O have out: "crop_loop w h original ?wr ?hr pmask idxs t' = Inr out"
      "dim_b out = dim_b t'" "dim_c out = dim_c t'" "dim_h out = dim_h t'" "dim_w out = dim_w t'"
    by simp_all
  from O have keep: "\<And>b c y x. c < dim_c t' \<Longrightarrow> b \<notin> set idxs \<Longrightarrow> elem out b c y x = elem t' b c y x"
    by simp
  from O have fin0: "\<forall>idx\<in>set idxs. \<forall>x_min x_max y_min y_max x_pad y_pad.
              crop_window w h ?W ?H ?wr ?hr (pmask ! idx) = Inr (x_min, x_max, y_min, y_max) \<longrightarrow>
              pad_offsets w h (x_min, x_max, y_min, y_max) = (x_pad, y_pad) \<longrightarrow>
              (\<forall>c y x. c < dim_c t' \<longrightarrow> elem out idx c y x =
                (if y_pad \<le> int y \<and> int y < y_pad + (y_max - y_min) \<and>
                    x_pad \<le> int x \<and> int x < x_pad + (x_max - x_min)
                 then elem original idx c (nat (y_min + (int y - y_pad))) (nat (x_min + (int x - x_pad)))
                 else elem t' idx c y x))"
    by (elim conjE)
  have fin: "elem out idx c y x =
                (if y_pad \<le> int y \<and> int y < y_pad + (y_max - y_min) \<and>
                    x_pad \<le> int x \<and> int x < x_pad + (x_max - x_min)
                 then elem original idx c (nat (y_min + (int y - y_pad))) (nat (x_min + (int x - x_pad)))
                 else elem t' idx c y x)"
    if "idx \<in> set idxs"
      "crop_window w h ?W ?H ?wr ?hr (pmask ! idx) = Inr (x_min, x_max, y_min, y_max)"
      "pad_offsets w h (x_min, x_max, y_min, y_max) = (x_pad, y_pad)" "c < dim_c t'"
    for idx x_min x_max y_min y_max x_pad y_pad c y x
    using fin0 [rule_format, OF that] .
  have run: "crop_loop w h original ?wr ?hr pmask (i # idxs) t = Inr out"
    using t'(1) out(1) by simp
  have dims: "dim_b out = dim_b t" "dim_c out = dim_c t" "dim_h out = dim_h t" "dim_w out = dim_w t"
    using out t' by simp_all
  have other: "elem out b c y x = elem t b c y x" if "c < dim_c t" "b \<notin> set (i # idxs)" for b c y x
    using keep [of c b y x] el [of c b y x] that t'(3) by simp
  have slot: "elem out idx c y x =
                (if y_pad \<le> int y \<and> int y < y_pad + (y_max - y_min) \<and>
                    x_pad \<le> int x \<and> int x < x_pad + (x_max - x_min)
                 then elem original idx c (nat (y_min + (int y - y_pad))) (nat (x_min + (int x - x_pad)))
                 else elem t idx c y x)"
    if m: "idx \<in> set (i # idxs)"
      and w: "crop_window w h ?W ?H ?wr ?hr (pmask ! idx) = Inr (x_min, x_max, y_min, y_max)"
      and p: "pad_offsets w h (x_min, x_max, y_min, y_max) = (x_pad, y_pad)"
      and c: "c < dim_c t"
    for idx x_min x_max y_min y_max x_pad y_pad c y x
  proof (cases "idx = i")
    case True
    have eqs: "x_min = x0" "x_max = x1" "y_min = y0" "y_max = y1" using w win True by simp_all
    then have eqp: "x_pad = xp" "y_pad = yp" using p pads by simp_all
    have "elem out idx c y x = elem t' i c y x"
      using keep [of c i y x] c t'(3) i(4) True by simp
    then show ?thesis using el [OF c, of i y x] True eqs eqp by simp
  next
    case False
    then have "idx \<in> set idxs" using m by simp
    moreover have "elem t' idx c y x = elem t idx c y x" using el [OF c, of idx y x] False by simp
    ultimately show ?thesis using fin [OF _ w p, of c y x] c t'(3) by simp
  qed
  show ?case
    apply (rule exI [of _ out])
    using run dims other slot by (simp; blast)
qed

lemma mask_pred_row:
  "idx < length pred \<Longrightarrow> length (mask_pred pred ! idx) = length (pred ! idx)"
  by (simp add: mask_pred_def)

lemma element_window_eq:
  "idx < length pred \<Longrightarrow>
   element_window w h original pred idx =
     crop_window w h (int (dim_w original)) (int (dim_h original))
       (real (dim_w original) / real_of_int w) (real (dim_h original) / real_of_int h)
       (mask_pred pred ! idx)"
  by (simp add: element_window_def mask_pred_def)

lemma element_window_Inr_row:
  "element_window w h original pred idx = Inr win \<Longrightarrow> idx < length pred"
  by (simp add: element_window_def mask_pred_def split: if_splits)

lemma element_window_bounds:
  assumes ok: "batch_shapes_ok w h original resize pred" and idx: "idx < dim_b original"
  shows "\<exists>x_min x_max y_min y_max x_pad y_pad.
           element_window w h original pred idx = Inr (x_min, x_max, y_min, y_max) \<and>
           pad_offsets w h (x_min, x_max, y_min, y_max) = (x_pad, y_pad) \<and>
           0 \<le> x_min \<and> x_min \<le> x_max \<and> x_max \<le> int (dim_w original) \<and> x_max - x_min \<le> w \<and>
           0 \<le> y_min \<and> y_min \<le> y_max \<and> y_max \<le> int (dim_h original) \<and> y_max - y_min \<le> h \<and>
           0 \<le> x_pad \<and> x_pad + (x_max - x_min) \<le> w \<and>
           0 \<le> y_pad \<and> y_pad + (y_max - y_min) \<le> h"
proof -
  have pos: "0 < w" "0 < h" "0 < int (dim_w original)" "0 < int (dim_h original)"
    using ok by (simp_all add: batch_shapes_ok_def)
  have lp: "idx < length pred" using ok idx by (simp add: batch_shapes_ok_def)
  moreover from this have "int (length (pred ! idx)) = w + h"
    using ok by (simp add: batch_shapes_ok_def list_all_length)
  ultimately have row: "int (length (mask_pred pred ! idx)) = w + h"
    by (simp add: mask_pred_row)
  obtain x_min x_max y_min y_max where
    win: "element_window w h original pred idx = Inr (x_min, x_max, y_min, y_max)"
    and b: "0 \<le> x_min" "x_min \<le> x_max" "x_max \<le> int (dim_w original)" "x_max - x_min \<le> w"
           "0 \<le> y_min" "y_min \<le> y_max" "y_max \<le> int (dim_h original)" "y_max - y_min \<le> h"
    using crop_window_bounds [OF pos row] unfolding element_window_eq [OF lp] by auto
  obtain x_pad y_pad where p: "pad_offsets w h (x_min, x_max, y_min, y_max) = (x_pad, y_pad)"
    by (cases "pad_offsets w h (x_min, x_max, y_min, y_max)")
  show ?thesis
    using win p b pad_offsets_bounds [OF b(2,4,6,8) p] by blast
qed

lemma crop_original_batch_result:
  fixes original resize :: "('a::zero) tensor4"
  assumes ok: "batch_shapes_ok w h original resize pred"
  shows "\<exists>out. crop_original_batch w h original resize pred = Inr out \<and>
           dim_b out = dim_b resize \<and> dim_c out = dim_c resize \<and>
           dim_h out = dim_h resize \<and> dim_w out = dim_w resize \<and>
           (\<forall>idx<dim_b original. \<forall>x_min x_max y_min y_max x_pad y_pad.
              element_window w h original pred idx = Inr (x_min, x_max, y_min, y_max) \<longrightarrow>
              pad_offsets w h (x_min, x_max, y_min, y_max) = (x_pad, y_pad) \<longrightarrow>
              (\<forall>c y x. c < dim_c original \<longrightarrow> elem out idx c y x =
                (if y_pad \<le> int y \<and> int y < y_pad + (y_max - y_min) \<and>
                    x_pad \<le> int x \<and> int x < x_pad + (x_max - x_min)
                 then elem original idx c (nat (y_min + (int y - y_pad))) (nat (x_min + (int x - x_pad)))
                 else 0)))"
proof -
  let ?t = "zeros_like resize"
  let ?pm = "mask_pred pred"
  have pos: "0 < w" "0 < h" "0 < dim_w original" "0 < dim_h original"
    using ok by (simp_all add: batch_shapes_ok_def)
  have shp: "dim_c ?t = dim_c original" "int (dim_w ?t) = w" "int (dim_h ?t) = h"
    using ok by (simp_all add: batch_shapes_ok_def zeros_like_def)
  have rows: "\<forall>i\<in>set [0..<dim_b original]. i < length ?pm \<and> int (length (?pm ! i)) = w + h \<and> i < dim_b ?t"
    using ok by (simp add: batch_shapes_ok_def zeros_like_def list_all_length mask_pred_def)
  have run: "crop_original_batch w h original resize pred =
      crop_loop w h original (real (dim_w original) / real_of_int w)
        (real (dim_h original) / real_of_int h) ?pm [0..<dim_b original] ?t"
    using pos by (simp add: crop_original_batch_def Let_def)
  obtain out where O: "crop_loop w h original (real (dim_w original) / real_of_int w)
                 (real (dim_h original) / real_of_int h) ?pm [0..<dim_b original] ?t = Inr out \<and>
           dim_b out = dim_b ?t \<and> dim_c out = dim_c ?t \<and> dim_h out = dim_h ?t \<and> dim_w out = dim_w ?t \<and>
           (\<forall>b c y x. c < dim_c ?t \<longrightarrow> b \<notin> set [0..<dim_b original] \<longrightarrow> elem out b c y x = elem ?t b c y x) \<and>
           (\<forall>idx\<in>set [0..<dim_b original]. \<forall>x_min x_max y_min y_max x_pad y_pad.
              crop_window w h (int (dim_w original)) (int (dim_h original))
                (real (dim_w original) / real_of_int w) (real (dim_h original) / real_of_int h)
                (?pm ! idx) = Inr (x_min, x_max, y_min, y_max) \<longrightarrow>
              pad_offsets w h (x_min, x_max, y_min, y_max) = (x_pad, y_pad) \<longrightarrow>
              (\<forall>c y x. c < dim_c ?t \<longrightarrow> elem out idx c y x =
                (if y_pad \<le> int y \<and> int y < y_pad + (y_max - y_min) \<and>
                    x_pad \<le> int x \<and> int x < x_pad + (x_max - x_min)
                 then elem original idx c (nat (y_min + (int y - y_pad))) (nat (x_min + (int x - x_pad)))
                 else elem ?t idx c y x)))"
    using crop_loop_result [OF pos distinct_upt rows shp] by (rule exE)
  have z: "elem ?t b c y x = 0" for b c y x by (simp add: zeros_like_def)
  have d: "dim_b ?t = dim_b resize" "dim_c ?t = dim_c resize" "dim_h ?t = dim_h resize" "dim_w ?t = dim_w resize"
    by (simp_all add: zeros_like_def)
  have ceq: "dim_c resize = dim_c original" using ok by (simp add: batch_shapes_ok_def)
  from O have r: "crop_original_batch w h original resize pred = Inr out"
    "dim_b out = dim_b resize" "dim_c out = dim_c resize" "dim_h out = dim_h resize" "dim_w out = dim_w resize"
    unfolding run d by simp_all
  from O have fin0: "\<forall>idx\<in>set [0..<dim_b original]. \<forall>x_min x_max y_min y_max x_pad y_pad.
              crop_window w h (int (dim_w original)) (int (dim_h original))
                (real (dim_w original) / real_of_int w) (real (dim_h original) / real_of_int h)
                (?pm ! idx) = Inr (x_min, x_max, y_min, y_max) \<longrightarrow>
              pad_offsets w h (x_min, x_max, y_min, y_max) = (x_pad, y_pad) \<longrightarrow>
              (\<forall>c y x. c < dim_c ?t \<longrightarrow> elem out idx c y x =
                (if y_pad \<le> int y \<and> int y < y_pad + (y_max - y_min) \<and>
                    x_pad \<le> int x \<and> int x < x_pad + (x_max - x_min)
                 then elem original idx c (nat (y_min + (int y - y_pad))) (nat (x_min + (int x - x_pad)))
                 else elem ?t idx c y x))"
    by (elim conjE)
  have slot: "elem out idx c y x =
                (if y_pad \<le> int y \<and> int y < y_pad + (y_max - y_min) \<and>
                    x_pad \<le> int x \<and> int x < x_pad + (x_max - x_min)
                 then elem original idx c (nat (y_min + (int y - y_pad))) (nat (x_min + (int x - x_pad)))
                 else 0)"
    if "idx < dim_b original"
      "element_window w h original pred idx = Inr (x_min, x_max, y_min, y_max)"
      "pad_offsets w h (x_min, x_max, y_min, y_max) = (x_pad, y_pad)" "c < dim_c original"
    for idx x_min x_max y_min y_max x_pad y_pad c y x
  proof -
    have m: "idx \<in> set [0..<dim_b original]" using that(1) by simp
    have c: "c < dim_c ?t" using that(4) shp(1) by simp
    have l: "idx < length pred" using that(2) by (rule element_window_Inr_row)
    show ?thesis
      using fin0 [rule_format, OF m that(2) [unfolded element_window_eq [OF l]] that(3) c] unfolding z .
  qed
  show ?thesis
    apply (rule exI [of _ out])
    using r slot by (simp; blast)
qed

subsection \<open>The example inputs\<close>

lemma argmax_from_zeros_one:
  "argmax_from (replicate k 0 @ [1]) i 0 best_i = i + k"
  by (induction k arbitrary: i) simp_all

lemma argmax_zeros_one: "argmax (replicate k 0 @ [1]) = Inr k"
proof (cases k)
  case 0
  then show ?thesis by (simp add: argmax_def)
next
  case (Suc j)
  then show ?thesis using argmax_from_zeros_one [of j 1 0] by (simp add: argmax_def)
qed

lemma argmax_from_zeros: "0 \<le> best \<Longrightarrow> argmax_from (replicate k 0) i best best_i = best_i"
  by (induction k arbitrary: i) simp_all

lemma argmax_one_zeros: "argmax (1 # replicate k 0) = Inr 0"
  by (simp add: argmax_def argmax_from_zeros)

lemma ball_pos_append:
  assumes "int (length xs) = w"
  shows "ball_pos w h (xs @ ys) =
     (if sum_list xs = 0 \<or> sum_list ys = 0
      then Inr (py_int (real_of_int w / 2), py_int (real_of_int h / 2))
      else (case argmax xs of Inl e \<Rightarrow> Inl e | Inr ball_pos_x \<Rightarrow>
             (case argmax ys of Inl e \<Rightarrow> Inl e | Inr ball_pos_y \<Rightarrow>
                Inr (int ball_pos_x, int ball_pos_y))))"
proof -
  have w: "0 \<le> w" "nat w = length xs" using assms by auto
  have x: "py_slice (xs @ ys) 0 w = xs"
    using w by (simp add: py_slice_take)
  have y: "py_slice (xs @ ys) w (int (length (xs @ ys))) = ys"
    using w py_slice_drop [of w "xs @ ys"] by simp
  show ?thesis
    unfolding ball_pos_def Let_def x y ..
qed

lemma ball_pos_corner: "ball_pos 320 128 (mask_pred example_pred_corner ! 0) = Inr (319, 127)"
proof -
  have row: "mask_pred example_pred_corner ! 0 = (replicate 319 0 @ [1]) @ (replicate 127 0 @ [1])"
    by (simp add: mask_pred_def example_pred_corner_def)
  show ?thesis
    unfolding row by (subst ball_pos_append) (simp_all add: argmax_zeros_one sum_list_replicate)
qed

lemma element_window_corner:
  "element_window 320 128 example_original example_pred_corner 0 = Inr (1754, 1920, 1007, 1080)"
proof -
  have l: "0 < length example_pred_corner" by (simp add: example_pred_corner_def)
  show ?thesis
    unfolding element_window_eq [OF l] crop_window_def ball_pos_corner
    by (simp add: example_original_def adjust_pos_def get_crop_params_def py_int_def)
qed

lemma ball_pos_origin: "ball_pos 320 128 (mask_pred example_pred_origin ! 0) = Inr (0, 0)"
proof -
  have row: "mask_pred example_pred_origin ! 0 = (1 # replicate 319 0) @ (1 # replicate 127 0)"
    by (simp add: mask_pred_def example_pred_origin_def)
  show ?thesis
    unfolding row by (subst ball_pos_append) (simp_all add: argmax_one_zeros sum_list_replicate)
qed

lemma element_window_origin:
  "element_window 320 128 example_original example_pred_origin 0 = Inr (0, 320, 0, 128)"
proof -
  have l: "0 < length example_pred_origin" by (simp add: example_pred_origin_def)
  show ?thesis
    unfolding element_window_eq [OF l] crop_window_def ball_pos_origin
    by (simp add: example_original_def adjust_pos_def get_crop_params_def py_int_def)
qed

lemma ball_pos_zero: "ball_pos 320 128 (mask_pred example_pred_zero ! 0) = Inr (160, 64)"
proof -
  have "replicate 448 (0::real) = replicate (320 + 128) 0" by simp
  then have row: "mask_pred example_pred_zero ! 0 = replicate 320 0 @ replicate 128 0"
    unfolding replicate_add by (simp add: mask_pred_def example_pred_zero_def)
  show ?thesis
    unfolding row by (subst ball_pos_append) (simp_all add: py_int_def sum_list_replicate)
qed

lemma element_window_zero:
  "element_window 320 128 example_original example_pred_zero 0 = Inr (800, 1120, 476, 604)"
proof -
  have l: "0 < length example_pred_zero" by (simp add: example_pred_zero_def)
  show ?thesis
    unfolding element_window_eq [OF l] crop_window_def ball_pos_zero
    by (simp add: example_original_def adjust_pos_def get_crop_params_def py_int_def)
qed

lemma shapes_corner: "batch_shapes_ok 320 128 example_original example_resize example_pred_corner"
  by (simp add: batch_shapes_ok_def example_original_def example_resize_def example_pred_corner_def)

lemma shapes_origin: "batch_shapes_ok 320 128 example_original example_resize example_pred_origin"
  by (simp add: batch_shapes_ok_def example_original_def example_resize_def example_pred_origin_def)

lemma shapes_zero: "batch_shapes_ok 320 128 example_original example_resize example_pred_zero"
  by (simp add: batch_shapes_ok_def example_original_def example_resize_def example_pred_zero_def)

lemma get_crop_params_eq:
  assumes "0 \<le> w" "0 \<le> h"
  shows "get_crop_params xc yc w h W H =
     (max 0 (xc - w div 2), min W (max 0 (xc - w div 2) + w),
      max 0 (yc - h div 2), min H (max 0 (yc - h div 2) + h))"
  using assms by (simp add: get_crop_params_def Let_def py_int_half)

lemma crop_window_Inr:
  "ball_pos w h row = Inr (px, py) \<Longrightarrow>
   crop_window w h W H wr hr row = Inr (get_crop_params (adjust_pos px wr) (adjust_pos py hr) w h W H)"
  by (simp add: crop_window_def)

lemma element_window_shape:
  assumes ok: "batch_shapes_ok w h original resize pred"
    and win: "element_window w h original pred idx = Inr (x_min, x_max, y_min, y_max)"
  shows "x_max = min (int (dim_w original)) (x_min + w) \<and> y_max = min (int (dim_h original)) (y_min + h)"
proof -
  have pos: "0 \<le> w" "0 \<le> h" using ok by (simp_all add: batch_shapes_ok_def)
  have l: "idx < length pred" using win by (rule element_window_Inr_row)
  obtain px py where p: "ball_pos w h (mask_pred pred ! idx) = Inr (px, py)"
    using win unfolding element_window_eq [OF l] crop_window_def
    by (cases "ball_pos w h (mask_pred pred ! idx)") auto
  show ?thesis
    using win unfolding element_window_eq [OF l] crop_window_Inr [OF p] get_crop_params_eq [OF pos]
    by auto
qed

subsection \<open>The centre fallback\<close>

lemma sum_list_zeros: "\<forall>v\<in>set xs. v = (0::real) \<Longrightarrow> sum_list xs = 0"
  by (induction xs) simp_all

lemma set_py_slice: "set (py_slice xs lo hi) \<subseteq> set xs"
proof -
  obtain s l where sl: "slice_indices lo hi (length xs) = (s, l)"
    by (cases "slice_indices lo hi (length xs)")
  have "set (take l (drop s xs)) \<subseteq> set (drop s xs)" by (rule set_take_subset)
  also have "\<dots> \<subseteq> set xs" by (rule set_drop_subset)
  finally show ?thesis by (simp add: py_slice_def sl)
qed

lemma ball_pos_total: "\<exists>p. ball_pos w h row = Inr p"
proof (cases "sum_list (py_slice row 0 w) = 0 \<or> sum_list (py_slice row w (int (length row))) = 0")
  case True
  then show ?thesis by (simp add: ball_pos_def Let_def)
next
  case False
  then have "py_slice row 0 w \<noteq> []" "py_slice row w (int (length row)) \<noteq> []" by auto
  then have "0 < length (py_slice row 0 w)" "0 < length (py_slice row w (int (length row)))"
    by simp_all
  then obtain ax ay where "argmax (py_slice row 0 w) = Inr ax"
      "argmax (py_slice row w (int (length row))) = Inr ay"
    using argmax_defined by blast
  then show ?thesis using False by (simp add: ball_pos_def Let_def)
qed

lemma ball_pos_fallback:
  "sum_list (py_slice row 0 w) = 0 \<or> sum_list (py_slice row w (int (length row))) = 0 \<Longrightarrow>
   ball_pos w h row = Inr (py_int (real_of_int w / 2), py_int (real_of_int h / 2))"
  by (simp add: ball_pos_def Let_def)

lemma mask_pred_below_threshold:
  assumes "idx < length pred" "\<forall>v\<in>set (pred ! idx). v \<le> 1 / 100"
  shows "\<forall>v\<in>set (mask_pred pred ! idx). v = 0"
  using assms by (auto simp: mask_pred_def)

subsection \<open>Keys of a state dict\<close>

lemma split_on_not_Nil: "split_on c s \<noteq> []"
  by (induction s) (auto split: list.splits)

lemma join_with_Cons_char: "join_with sep ((x # p) # ps) = x # join_with sep (p # ps)"
  by (cases ps) simp_all

lemma join_split: "join_with [c] (split_on c s) = s"
proof (induction s)
  case Nil
  then show ?case by simp
next
  case (Cons x xs)
  obtain p ps where sp: "split_on c xs = p # ps"
    using split_on_not_Nil [of c xs] by (cases "split_on c xs") auto
  show ?case
  proof (cases "x = c")
    case True
    then show ?thesis using Cons.IH sp by simp
  next
    case False
    then show ?thesis using Cons.IH sp by (simp add: join_with_Cons_char)
  qed
qed

lemma split_on_parts_free: "p \<in> set (split_on c s) \<Longrightarrow> c \<notin> set p"
proof (induction s arbitrary: p)
  case Nil
  then show ?case by simp
next
  case (Cons x xs)
  obtain q qs where sp: "split_on c xs = q # qs"
    using split_on_not_Nil [of c xs] by (cases "split_on c xs") auto
  show ?case
  proof (cases "x = c")
    case True
    then show ?thesis using Cons by auto
  next
    case False
    then have "p = x # q \<or> p \<in> set qs" using Cons.prems sp by simp
    then show ?thesis using Cons.IH [of q] Cons.IH [of p] sp False by auto
  qed
qed

lemma split_on_free: "c \<notin> set p \<Longrightarrow> split_on c p = [p]"
  by (induction p) auto

lemma split_on_append_sep:
  "c \<notin> set p \<Longrightarrow> split_on c (p @ c # rest) = p # split_on c rest"
  by (induction p) auto

lemma split_join:
  "ps \<noteq> [] \<Longrightarrow> \<forall>p\<in>set ps. c \<notin> set p \<Longrightarrow> split_on c (join_with [c] ps) = ps"
proof (induction "[c]" ps rule: join_with.induct)
  case 1
  then show ?case by simp
next
  case (2 p)
  then show ?case by (simp add: split_on_free)
next
  case (3 p q ps)
  then show ?case by (simp add: split_on_append_sep)
qed

lemma sublist_join: "l \<in> set ps \<Longrightarrow> sublist l (join_with sep ps)"
proof (induction sep ps rule: join_with.induct)
  case (1 sep)
  then show ?case by simp
next
  case (2 sep p)
  then show ?case by simp
next
  case (3 sep p q ps)
  show ?case
  proof (cases "l = p")
    case True
    have "p @ sep @ join_with sep (q # ps) = [] @ p @ (sep @ join_with sep (q # ps))" by simp
    then show ?thesis unfolding True join_with.simps sublist_def by blast
  next
    case False
    then have "sublist l (join_with sep (q # ps))" using 3 by simp
    then obtain a b where "join_with sep (q # ps) = a @ l @ b" unfolding sublist_def by blast
    then have "p @ sep @ join_with sep (q # ps) = (p @ sep @ a) @ l @ b" by simp
    then show ?thesis unfolding join_with.simps sublist_def by blast
  qed
qed

lemma local_name_of_contains:
  assumes "1 < length (split_on CHR ''.'' k)"
  shows "sublist ''ball_local_stage'' (local_name_of k)"
  unfolding local_name_of_def
  by (rule sublist_join) (use assms in \<open>simp add: set_update_memI\<close>)

lemma split_local_name_of:
  "split_on CHR ''.'' (local_name_of k) = (split_on CHR ''.'' k)[1 := ''ball_local_stage'']"
proof -
  have ne: "(split_on CHR ''.'' k)[1 := ''ball_local_stage''] \<noteq> []"
    using split_on_not_Nil [of "CHR ''.''" k] by simp
  have fr: "\<forall>p\<in>set ((split_on CHR ''.'' k)[1 := ''ball_local_stage'']). CHR ''.'' \<notin> set p"
  proof
    fix p assume "p \<in> set ((split_on CHR ''.'' k)[1 := ''ball_local_stage''])"
    then have "p = ''ball_local_stage'' \<or> p \<in> set (split_on CHR ''.'' k)"
      using set_update_subset_insert [of "split_on CHR ''.'' k" 1 "''ball_local_stage''"] by auto
    then show "CHR ''.'' \<notin> set p"
      using split_on_parts_free [of p "CHR ''.''" k] by auto
  qed
  have "split_on CHR ''.'' (join_with [CHR ''.''] ((split_on CHR ''.'' k)[1 := ''ball_local_stage'']))
          = (split_on CHR ''.'' k)[1 := ''ball_local_stage'']"
    by (rule split_join [OF ne fr])
  then show ?thesis by (simp add: local_name_of_def)
qed

lemma local_name_of_inj:
  assumes "global_stage_second k1" "global_stage_second k2" "local_name_of k1 = local_name_of k2"
  shows "k1 = k2"
proof -
  let ?p1 = "split_on CHR ''.'' k1" and ?p2 = "split_on CHR ''.'' k2"
  have g: "?p1 ! 1 = ''ball_global_stage''" "?p2 ! 1 = ''ball_global_stage''"
    using assms(1,2) by (simp_all add: global_stage_second_def Let_def)
  have "?p1[1 := ''ball_local_stage''] = ?p2[1 := ''ball_local_stage'']"
    using assms(3) split_local_name_of [of k1] split_local_name_of [of k2] by simp
  then have "(?p1[1 := ''ball_local_stage''])[1 := ''ball_global_stage'']
             = (?p2[1 := ''ball_local_stage''])[1 := ''ball_global_stage'']" by simp
  then have "?p1[1 := ?p1 ! 1] = ?p2[1 := ?p2 ! 1]" unfolding g by simp
  then have "?p1 = ?p2" by simp
  then have "join_with [CHR ''.''] ?p1 = join_with [CHR ''.''] ?p2" by simp
  then show ?thesis by (simp add: join_split)
qed

subsection \<open>Merging state dicts\<close>

lemma map_of_dict_merge: "map_of (dict_merge a b) = map_of a ++ map_of (rev b)"
proof (induction b arbitrary: a)
  case Nil
  then show ?case by (simp add: dict_merge_def)
next
  case (Cons x xs)
  obtain k v where x: "x = (k, v)" by (cases x)
  have "dict_merge a (x # xs) = dict_merge (dict_set a k v) xs"
    by (simp add: dict_merge_def x)
  then have "map_of (dict_merge a (x # xs)) = map_of (dict_set a k v) ++ map_of (rev xs)"
    using Cons.IH [of "dict_set a k v"] by simp
  also have "map_of (dict_set a k v) = (map_of a)(k \<mapsto> v)"
    unfolding dict_set_def by (rule update_conv')
  also have "(map_of a)(k \<mapsto> v) ++ map_of (rev xs) = map_of a ++ map_of (rev (x # xs))"
    by (rule ext) (simp add: x map_add_def split: option.split)
  finally show ?case .
qed

lemma distinct_dict_merge: "distinct (map fst a) \<Longrightarrow> distinct (map fst (dict_merge a b))"
proof (induction b arbitrary: a)
  case Nil
  then show ?case by (simp add: dict_merge_def)
next
  case (Cons x xs)
  obtain k v where x: "x = (k, v)" by (cases x)
  have "dict_merge a (x # xs) = dict_merge (dict_set a k v) xs"
    by (simp add: dict_merge_def x)
  moreover have "distinct (map fst (dict_set a k v))"
    using Cons.prems by (simp add: dict_set_def distinct_update)
  ultimately show ?case using Cons.IH by simp
qed

lemma local_weights_loop_eq:
  assumes "\<forall>k\<in>fst ` set items. sublist ''ball_global_stage'' k \<longrightarrow> global_stage_second k"
  shows "local_weights_loop items acc = Inr (dict_merge acc (local_items items))"
  using assms
proof (induction items arbitrary: acc)
  case Nil
  then show ?case by (simp add: dict_merge_def local_items_def)
next
  case (Cons x xs)
  obtain k v where x: "x = (k, v)" by (cases x)
  have rest: "\<forall>k\<in>fst ` set xs. sublist ''ball_global_stage'' k \<longrightarrow> global_stage_second k"
    using Cons.prems by simp
  show ?case
  proof (cases "sublist ''ball_global_stage'' k")
    case True
    then have "global_stage_second k" using Cons.prems x by simp
    then have len: "1 < length (split_on CHR ''.'' k)"
      by (simp add: global_stage_second_def Let_def)
    have set1: "py_setitem (split_on CHR ''.'' k) 1 ''ball_local_stage''
                  = Inr ((split_on CHR ''.'' k)[1 := ''ball_local_stage''])"
      using len by (simp add: py_setitem_def Let_def)
    have "local_weights_loop (x # xs) acc = local_weights_loop xs (dict_set acc (local_name_of k) v)"
      unfolding x using True by (simp add: set1 Let_def local_name_of_def)
    also have "\<dots> = Inr (dict_merge (dict_set acc (local_name_of k) v) (local_items xs))"
      by (rule Cons.IH [OF rest])
    also have "dict_merge (dict_set acc (local_name_of k) v) (local_items xs)
                 = dict_merge acc (local_items (x # xs))"
      using True by (simp add: local_items_def dict_merge_def x)
    finally show ?thesis .
  next
    case False
    then have "local_weights_loop (x # xs) acc = local_weights_loop xs acc"
      unfolding x by simp
    also have "\<dots> = Inr (dict_merge acc (local_items xs))" by (rule Cons.IH [OF rest])
    also have "local_items xs = local_items (x # xs)"
      using False by (simp add: local_items_def x)
    finally show ?thesis .
  qed
qed

lemma local_items_keys:
  "fst ` set (local_items items) =
     local_name_of ` {k \<in> fst ` set items. sublist ''ball_global_stage'' k}"
  by (force simp: local_items_def image_iff)

lemma distinct_local_items:
  assumes "distinct (map fst items)"
    and "\<forall>k\<in>fst ` set items. sublist ''ball_global_stage'' k \<longrightarrow> global_stage_second k"
  shows "distinct (map fst (local_items items))"
proof -
  let ?G = "filter (\<lambda>(k, v). sublist ''ball_global_stage'' k) items"
  have d: "distinct (map fst ?G)" using assms(1) by (simp add: distinct_map_filter)
  have inj: "inj_on local_name_of (set (map fst ?G))"
  proof (rule inj_onI)
    fix a b assume "a \<in> set (map fst ?G)" "b \<in> set (map fst ?G)" "local_name_of a = local_name_of b"
    moreover from this have "global_stage_second a" "global_stage_second b"
      using assms(2) by force+
    ultimately show "a = b" using local_name_of_inj by blast
  qed
  have eq: "map fst (local_items items) = map local_name_of (map fst ?G)"
    by (simp add: local_items_def case_prod_unfold comp_def)
  have "distinct (map local_name_of (map fst ?G))"
    using d inj by (subst distinct_map) blast
  then show ?thesis unfolding eq .
qed

lemma map_of_rev_distinct:
  assumes "distinct (map fst xs)"
  shows "map_of (rev xs) = map_of xs"
proof (rule ext)
  fix k
  have dr: "distinct (map fst (rev xs))" using assms by (simp add: rev_map [symmetric])
  show "map_of (rev xs) k = map_of xs k"
  proof (cases "map_of xs k")
    case None
    then have "k \<notin> fst ` set (rev xs)" by (simp add: map_of_eq_None_iff)
    then show ?thesis using None by (simp only: map_of_eq_None_iff [symmetric])
  next
    case (Some v)
    then have "(k, v) \<in> set (rev xs)" using assms by simp
    then show ?thesis using Some dr by (simp only: map_of_is_SomeI)
  qed
qed

subsection \<open>The first maximum and the mask\<close>

lemma first_max_unique:
  assumes "first_max xs i" "first_max xs j"
  shows "i = j"
proof (rule ccontr)
  assume ne: "i \<noteq> j"
  have i: "i < length xs" "\<forall>v\<in>set xs. v \<le> xs ! i" "\<forall>v\<in>set (take i xs). v < xs ! i"
    using assms(1) by (simp_all add: first_max_def list_all_iff)
  have j: "j < length xs" "\<forall>v\<in>set xs. v \<le> xs ! j" "\<forall>v\<in>set (take j xs). v < xs ! j"
    using assms(2) by (simp_all add: first_max_def list_all_iff)
  show False
  proof (cases "i < j")
    case True
    then have "xs ! i \<in> set (take j xs)"
      using i(1) j(1) by (metis in_set_conv_nth length_take min.absorb2 less_imp_le nth_take)
    then have "xs ! i < xs ! j" using j(3) by blast
    moreover have "xs ! j \<le> xs ! i" using i(2) j(1) by simp
    ultimately show False by simp
  next
    case False
    then have lt: "j < i" using ne by simp
    then have "xs ! j \<in> set (take i xs)"
      using i(1) j(1) by (metis in_set_conv_nth length_take min.absorb2 less_imp_le nth_take)
    then have "xs ! j < xs ! i" using i(3) by blast
    moreover have "xs ! i \<le> xs ! j" using j(2) i(1) by simp
    ultimately show False by simp
  qed
qed

lemma argmax_from_first_max:
  assumes "first_max pre best_i" "best = pre ! best_i" "i = length pre"
  shows "first_max (pre @ vs) (argmax_from vs i best best_i)"
  using assms
proof (induction vs arbitrary: pre best best_i i)
  case Nil
  then show ?case by simp
next
  case (Cons v vs)
  have b: "best_i < length pre" "\<forall>u\<in>set pre. u \<le> best" "\<forall>u\<in>set (take best_i pre). u < best"
    using Cons.prems by (simp_all add: first_max_def list_all_iff)
  show ?case
  proof (cases "best < v")
    case True
    have "first_max (pre @ [v]) i"
      unfolding first_max_def list_all_iff using Cons.prems(3) b(2) True by (auto simp: nth_append)
    then have "first_max ((pre @ [v]) @ vs) (argmax_from vs (Suc i) v i)"
      by (rule Cons.IH) (simp_all add: Cons.prems(3) nth_append)
    then show ?thesis using True by simp
  next
    case False
    have "first_max (pre @ [v]) best_i"
      unfolding first_max_def list_all_iff
      using b False Cons.prems(2) by (auto simp: nth_append)
    then have "first_max ((pre @ [v]) @ vs) (argmax_from vs (Suc i) best best_i)"
      by (rule Cons.IH) (simp_all add: Cons.prems(2,3) b(1) nth_append)
    then show ?thesis using False by simp
  qed
qed

lemma argmax_first_max: "argmax xs = Inr i \<Longrightarrow> first_max xs i"
proof (cases xs)
  case Nil
  assume "argmax xs = Inr i"
  then show ?thesis using Nil by (simp add: argmax_def)
next
  case (Cons v vs)
  assume a: "argmax xs = Inr i"
  have "first_max [v] 0" by (simp add: first_max_def)
  then have "first_max ([v] @ vs) (argmax_from vs 1 v 0)"
    by (rule argmax_from_first_max) simp_all
  then show ?thesis using a Cons by (simp add: argmax_def)
qed

lemma first_max_mask:
  assumes "first_max xs i" "1 / 100 < xs ! i"
  shows "first_max (map mask_value xs) i"
proof -
  have i: "i < length xs" "\<forall>v\<in>set xs. v \<le> xs ! i" "\<forall>v\<in>set (take i xs). v < xs ! i"
    using assms(1) by (simp_all add: first_max_def list_all_iff)
  have m: "mask_value (xs ! i) = xs ! i" using assms(2) by (simp add: mask_value_def)
  have le: "mask_value v \<le> xs ! i" if "v \<le> xs ! i" for v
    using that assms(2) by (simp add: mask_value_def)
  have lt: "mask_value v < xs ! i" if "v < xs ! i" for v
    using that assms(2) by (simp add: mask_value_def)
  show ?thesis
    unfolding first_max_def list_all_iff
    using i m le lt by (auto simp: take_map)
qed

lemma argmax_mask:
  assumes "list_ex (\<lambda>v. 1 / 100 < v) xs"
  shows "argmax (map mask_value xs) = argmax xs"
proof -
  obtain u where u: "u \<in> set xs" "1 / 100 < u" using assms by (auto simp: list_ex_iff)
  then have "0 < length xs" by (cases xs) auto
  then obtain i where i: "argmax xs = Inr i" using argmax_defined by blast
  have fm: "first_max xs i" using i by (rule argmax_first_max)
  then have "u \<le> xs ! i" using u(1) by (simp add: first_max_def list_all_iff)
  then have "1 / 100 < xs ! i" using u(2) by simp
  then have fmm: "first_max (map mask_value xs) i" by (rule first_max_mask [OF fm])
  have "0 < length (map mask_value xs)" using \<open>0 < length xs\<close> by simp
  then obtain j where j: "argmax (map mask_value xs) = Inr j" using argmax_defined by blast
  then have "first_max (map mask_value xs) j" by (rule argmax_first_max)
  then have "j = i" by (rule first_max_unique [OF _ fmm])
  then show ?thesis using i j by simp
qed

lemma sum_list_mask_pos:
  assumes "list_ex (\<lambda>v. 1 / 100 < v) xs"
  shows "0 < sum_list (map mask_value xs)"
  using assms
proof (induction xs)
  case Nil
  then show ?case by simp
next
  case (Cons x xs)
  have nn: "0 \<le> sum_list (map mask_value ys)" for ys
    by (rule sum_list_nonneg) (auto simp: mask_value_def)
  have x0: "0 \<le> mask_value x" by (simp add: mask_value_def)
  show ?case
  proof (cases "1 / 100 < x")
    case True
    then have "0 < mask_value x" by (simp add: mask_value_def)
    then show ?thesis using nn [of xs] by simp
  next
    case False
    then have "list_ex (\<lambda>v. 1 / 100 < v) xs" using Cons.prems by simp
    then have "0 < sum_list (map mask_value xs)" by (rule Cons.IH)
    then show ?thesis using x0 by simp
  qed
qed

lemma py_slice_map: "py_slice (map f xs) lo hi = map f (py_slice xs lo hi)"
  by (simp add: py_slice_def take_map drop_map split: prod.splits)

lemma mask_pred_nth:
  "idx < length pred \<Longrightarrow> mask_pred pred ! idx = map mask_value (pred ! idx)"
  by (simp add: mask_pred_def mask_value_def)

lemma argmax_from_peak:
  "argmax_from (replicate k 0 @ 1 # replicate m 0) i 0 best_i = i + k"
  by (induction k arbitrary: i best_i) (simp_all add: argmax_from_zeros)

lemma argmax_peak: "argmax (replicate k 0 @ 1 # replicate m 0) = Inr k"
proof (cases k)
  case 0
  then show ?thesis by (simp add: argmax_def argmax_from_zeros)
next
  case (Suc j)
  then show ?thesis using argmax_from_peak [of j m 1 0] by (simp add: argmax_def)
qed

lemma py_slice_append_left:
  "int (length xs) = w \<Longrightarrow> py_slice (xs @ ys) 0 w = xs"
  using py_slice_take [of w "xs @ ys"] by auto

lemma py_slice_append_right:
  "int (length xs) = w \<Longrightarrow> py_slice (xs @ ys) w (int (length (xs @ ys))) = ys"
  using py_slice_drop [of w "xs @ ys"] by auto

lemma peak_halves:
  "py_slice (example_pred_peak ! 0) 0 320 = replicate 100 0 @ 1 # replicate 219 0"
  "py_slice (example_pred_peak ! 0) 320 (int (length (example_pred_peak ! 0))) = replicate 50 0 @ 1 # replicate 77 0"
proof -
  have r: "example_pred_peak ! 0 = (replicate 100 0 @ 1 # replicate 219 0) @ (replicate 50 0 @ 1 # replicate 77 0)"
    by (simp add: example_pred_peak_def)
  show "py_slice (example_pred_peak ! 0) 0 320 = replicate 100 0 @ 1 # replicate 219 0"
    unfolding r by (rule py_slice_append_left) simp
  show "py_slice (example_pred_peak ! 0) 320 (int (length (example_pred_peak ! 0))) = replicate 50 0 @ 1 # replicate 77 0"
    unfolding r by (rule py_slice_append_right) simp
qed

section \<open>The claims\<close>

text \<open>
  C1. Crop bounds are always clamped to the image. For every batch whose tensors have the
  documented shapes (in particular a 1080 x 1920 original and a 128 x 320 resized frame),
  \<open>crop_original_batch\<close> returns a tensor of the shape of the resized batch, and for every
  batch element the window of \<open>get_crop_params\<close> satisfies
  \<open>0 \<le> x_min \<le> x_max \<le> w_original\<close>, \<open>0 \<le> y_min \<le> y_max \<le> h_original\<close>,
  \<open>x_max - x_min \<le> w_resize\<close> and \<open>y_max - y_min \<le> h_resize\<close>, and the destination
  of the centred pad, \<open>[y_pad, y_pad + h_crop) x [x_pad, x_pad + w_crop)\<close>, lies inside the
  \<open>h_resize x w_resize\<close> frame: no slice is clamped or wrapped and no assignment fails.
\<close>

theorem crop_original_batch_in_range:
  fixes original resize :: "('a::zero) tensor4"
  assumes "batch_shapes_ok w_resize h_resize original resize pred"
  shows "(\<exists>out. crop_original_batch w_resize h_resize original resize pred = Inr out \<and>
            dim_b out = dim_b resize \<and> dim_c out = dim_c resize \<and>
            dim_h out = dim_h resize \<and> dim_w out = dim_w resize) \<and>
         (\<forall>idx<dim_b original. \<exists>x_min x_max y_min y_max x_pad y_pad.
            element_window w_resize h_resize original pred idx = Inr (x_min, x_max, y_min, y_max) \<and>
            pad_offsets w_resize h_resize (x_min, x_max, y_min, y_max) = (x_pad, y_pad) \<and>
            0 \<le> x_min \<and> x_min \<le> x_max \<and> x_max \<le> int (dim_w original) \<and> x_max - x_min \<le> w_resize \<and>
            0 \<le> y_min \<and> y_min \<le> y_max \<and> y_max \<le> int (dim_h original) \<and> y_max - y_min \<le> h_resize \<and>
            0 \<le> x_pad \<and> x_pad + (x_max - x_min) \<le> w_resize \<and>
            0 \<le> y_pad \<and> y_pad + (y_max - y_min) \<le> h_resize)"
proof (rule conjI)
  show "\<exists>out. crop_original_batch w_resize h_resize original resize pred = Inr out \<and>
            dim_b out = dim_b resize \<and> dim_c out = dim_c resize \<and>
            dim_h out = dim_h resize \<and> dim_w out = dim_w resize"
    using crop_original_batch_result [OF assms] by blast
next
  show "\<forall>idx<dim_b original. \<exists>x_min x_max y_min y_max x_pad y_pad.
            element_window w_resize h_resize original pred idx = Inr (x_min, x_max, y_min, y_max) \<and>
            pad_offsets w_resize h_resize (x_min, x_max, y_min, y_max) = (x_pad, y_pad) \<and>
            0 \<le> x_min \<and> x_min \<le> x_max \<and> x_max \<le> int (dim_w original) \<and> x_max - x_min \<le> w_resize \<and>
            0 \<le> y_min \<and> y_min \<le> y_max \<and> y_max \<le> int (dim_h original) \<and> y_max - y_min \<le> h_resize \<and>
            0 \<le> x_pad \<and> x_pad + (x_max - x_min) \<le> w_resize \<and>
            0 \<le> y_pad \<and> y_pad + (y_max - y_min) \<le> h_resize"
    using element_window_bounds [OF assms] by (intro allI impI)
qed

theorem crop_original_batch_in_range_witness:
  "batch_shapes_ok 320 128 example_original example_resize example_pred_corner \<and>
   (\<exists>out. crop_original_batch 320 128 example_original example_resize example_pred_corner = Inr out \<and>
      dim_b out = 1 \<and> dim_c out = 27 \<and> dim_h out = 128 \<and> dim_w out = 320) \<and>
   element_window 320 128 example_original example_pred_corner 0 = Inr (1754, 1920, 1007, 1080) \<and>
   pad_offsets 320 128 (1754, 1920, 1007, 1080) = (77, 27)"
proof -
  have ok: "batch_shapes_ok 320 128 example_original example_resize example_pred_corner"
    by (rule shapes_corner)
  have "\<exists>out. crop_original_batch 320 128 example_original example_resize example_pred_corner = Inr out \<and>
      dim_b out = dim_b example_resize \<and> dim_c out = dim_c example_resize \<and>
      dim_h out = dim_h example_resize \<and> dim_w out = dim_w example_resize"
    using crop_original_batch_in_range [OF ok] by (rule conjunct1)
  then have "\<exists>out. crop_original_batch 320 128 example_original example_resize example_pred_corner = Inr out \<and>
      dim_b out = 1 \<and> dim_c out = 27 \<and> dim_h out = 128 \<and> dim_w out = 320"
    by (simp add: example_resize_def)
  moreover have "pad_offsets 320 128 (1754, 1920, 1007, 1080) = (77, 27)"
    by (simp add: pad_offsets_def py_int_def)
  ultimately show ?thesis using ok element_window_corner by blast
qed

text \<open>
  C2 (as amended). For every global prediction both of whose halves have an entry above 0.01
  (otherwise the centre fallback applies), with even \<open>w_resize\<close> and \<open>h_resize\<close> (as 320
  and 128 are) and an unclamped window (\<open>x_center - w_resize/2 \<ge> 0\<close>,
  \<open>x_center + w_resize/2 \<le> w_original\<close>, likewise for y), the crop window of
  \<open>get_crop_params\<close> is centred on the predicted position scaled to the original image,
  \<open>x_center = int(argmax_x * w_ratio)\<close> and \<open>y_center = int(argmax_y * h_ratio)\<close>, where
  \<open>argmax_x\<close> and \<open>argmax_y\<close> are the \<open>argmax\<close> of the two halves of the prediction:
  \<open>x_min = x_center - w_resize/2\<close> and \<open>x_max = x_center + w_resize/2\<close> (likewise for y).
  The ratios are arbitrary, so this covers the values the code computes in floating point.
  As stated for every prediction the claim fails in three ways: a peak at grid cell (0, 0)
  gives the clamped window \<open>[0, 320) x [0, 128)\<close>; for the all-zero prediction \<open>argmax\<close>
  is 0 and the window is the central \<open>[800, 1120) x [476, 604)\<close>; for the odd size 5 the
  window around the centre 8 is \<open>[6, 11)\<close>.
\<close>

theorem crop_window_centered_inside:
  assumes idx: "idx < length pred_ball_global"
    and px: "pred_x = py_slice (pred_ball_global ! idx) 0 w_resize"
    and py: "pred_y = py_slice (pred_ball_global ! idx) w_resize (int (length (pred_ball_global ! idx)))"
    and ex: "list_ex (\<lambda>v. 1 / 100 < v) pred_x" and ey: "list_ex (\<lambda>v. 1 / 100 < v) pred_y"
    and sz: "0 \<le> w_resize" "0 \<le> h_resize" "even w_resize" "even h_resize"
  shows "\<exists>argmax_x argmax_y.
     argmax pred_x = Inr argmax_x \<and> argmax pred_y = Inr argmax_y \<and>
     (let x_center = py_int (real argmax_x * w_ratio); y_center = py_int (real argmax_y * h_ratio)
      in 0 \<le> x_center - w_resize div 2 \<and> x_center + w_resize div 2 \<le> w_original \<and>
         0 \<le> y_center - h_resize div 2 \<and> y_center + h_resize div 2 \<le> h_original \<longrightarrow>
         crop_window w_resize h_resize w_original h_original w_ratio h_ratio
             (mask_pred pred_ball_global ! idx) =
           Inr (x_center - w_resize div 2, x_center + w_resize div 2,
                y_center - h_resize div 2, y_center + h_resize div 2))"
proof -
  let ?row = "mask_pred pred_ball_global ! idx"
  have row: "?row = map mask_value (pred_ball_global ! idx)" using idx by (rule mask_pred_nth)
  have mx: "py_slice ?row 0 w_resize = map mask_value pred_x"
    unfolding row px by (rule py_slice_map)
  have my: "py_slice ?row w_resize (int (length ?row)) = map mask_value pred_y"
    unfolding row py by (simp add: py_slice_map)
  have sx: "sum_list (map mask_value pred_x) \<noteq> 0" using sum_list_mask_pos [OF ex] by simp
  have sy: "sum_list (map mask_value pred_y) \<noteq> 0" using sum_list_mask_pos [OF ey] by simp
  obtain ux where "ux \<in> set pred_x" using ex by (auto simp: list_ex_iff)
  then have "0 < length pred_x" by (cases pred_x) auto
  then obtain ax where ax: "argmax pred_x = Inr ax" using argmax_defined by blast
  obtain uy where "uy \<in> set pred_y" using ey by (auto simp: list_ex_iff)
  then have "0 < length pred_y" by (cases pred_y) auto
  then obtain ay where ay: "argmax pred_y = Inr ay" using argmax_defined by blast
  have bp: "ball_pos w_resize h_resize ?row = Inr (int ax, int ay)"
    unfolding ball_pos_def Let_def mx my argmax_mask [OF ex] argmax_mask [OF ey]
    using sx sy ax ay by simp
  define xc where "xc = py_int (real ax * w_ratio)"
  define yc where "yc = py_int (real ay * h_ratio)"
  have win: "crop_window w_resize h_resize w_original h_original w_ratio h_ratio ?row =
      Inr (max 0 (xc - w_resize div 2), min w_original (max 0 (xc - w_resize div 2) + w_resize),
           max 0 (yc - h_resize div 2), min h_original (max 0 (yc - h_resize div 2) + h_resize))"
    unfolding crop_window_Inr [OF bp] get_crop_params_eq [OF sz(1,2)] xc_def yc_def adjust_pos_def
    by simp
  have wx: "w_resize div 2 + w_resize div 2 = w_resize" using sz(3) by presburger
  have hy: "h_resize div 2 + h_resize div 2 = h_resize" using sz(4) by presburger
  have cen: "crop_window w_resize h_resize w_original h_original w_ratio h_ratio ?row =
           Inr (xc - w_resize div 2, xc + w_resize div 2, yc - h_resize div 2, yc + h_resize div 2)"
    if u: "0 \<le> xc - w_resize div 2 \<and> xc + w_resize div 2 \<le> w_original \<and>
         0 \<le> yc - h_resize div 2 \<and> yc + h_resize div 2 \<le> h_original"
  proof -
    have "max 0 (xc - w_resize div 2) = xc - w_resize div 2"
      "min w_original (xc - w_resize div 2 + w_resize) = xc + w_resize div 2"
      "max 0 (yc - h_resize div 2) = yc - h_resize div 2"
      "min h_original (yc - h_resize div 2 + h_resize) = yc + h_resize div 2"
      using u wx hy by linarith+
    then show ?thesis unfolding win by simp
  qed
  show ?thesis
    apply (rule exI [of _ ax], rule exI [of _ ay])
    unfolding Let_def xc_def [symmetric] yc_def [symmetric]
    using ax ay cen by blast
qed

theorem crop_window_centered_inside_witness:
  "(0::nat) < length example_pred_peak \<and>
   list_ex (\<lambda>v. 1 / 100 < v) (py_slice (example_pred_peak ! 0) 0 320) \<and>
   list_ex (\<lambda>v. 1 / 100 < v) (py_slice (example_pred_peak ! 0) 320 (int (length (example_pred_peak ! 0)))) \<and>
   (0::int) \<le> 320 \<and> (0::int) \<le> 128 \<and> even (320::int) \<and> even (128::int) \<and>
   argmax (py_slice (example_pred_peak ! 0) 0 320) = Inr 100 \<and>
   argmax (py_slice (example_pred_peak ! 0) 320 (int (length (example_pred_peak ! 0)))) = Inr 50 \<and>
   py_int (real (100::nat) * (1920 / 320)) = 600 \<and> py_int (real (50::nat) * (1080 / 128)) = 421 \<and>
   (0::int) \<le> 600 - 320 div 2 \<and> (600::int) + 320 div 2 \<le> 1920 \<and>
   (0::int) \<le> 421 - 128 div 2 \<and> (421::int) + 128 div 2 \<le> 1080 \<and>
   crop_window 320 128 1920 1080 (1920 / 320) (1080 / 128) (mask_pred example_pred_peak ! 0) =
     Inr (600 - 160, 600 + 160, 421 - 64, 421 + 64) \<and>
   element_window 320 128 example_original example_pred_peak 0 = Inr (440, 760, 357, 485)"
proof -
  have l: "(0::nat) < length example_pred_peak" by (simp add: example_pred_peak_def)
  have ex: "list_ex (\<lambda>v. 1 / 100 < v) (py_slice (example_pred_peak ! 0) 0 320)"
    unfolding peak_halves by simp
  have ey: "list_ex (\<lambda>v. 1 / 100 < v) (py_slice (example_pred_peak ! 0) 320 (int (length (example_pred_peak ! 0))))"
    unfolding peak_halves by simp
  have ax: "argmax (py_slice (example_pred_peak ! 0) 0 320) = Inr 100"
    unfolding peak_halves by (rule argmax_peak)
  have ay: "argmax (py_slice (example_pred_peak ! 0) 320 (int (length (example_pred_peak ! 0)))) = Inr 50"
    unfolding peak_halves by (rule argmax_peak)
  have cx: "py_int (real (100::nat) * (1920 / 320)) = 600" and cy: "py_int (real (50::nat) * (1080 / 128)) = 421"
    by (simp_all add: py_int_def)
  from crop_window_centered_inside [OF l refl refl ex ey, of 128 "1920 / 320" "1080 / 128" 1920 1080]
  have w: "crop_window 320 128 1920 1080 (1920 / 320) (1080 / 128) (mask_pred example_pred_peak ! 0) =
     Inr (600 - 160, 600 + 160, 421 - 64, 421 + 64)"
    unfolding ax ay Let_def by (simp add: py_int_def)
  then have "element_window 320 128 example_original example_pred_peak 0 = Inr (440, 760, 357, 485)"
    unfolding element_window_eq [OF l] by (simp add: example_original_def)
  then show ?thesis using l ex ey ax ay cx cy w by simp
qed

theorem crop_window_centered_counterexample:
  "argmax (py_slice (example_pred_origin ! 0) 0 320) = Inr 0 \<and>
   argmax (py_slice (example_pred_origin ! 0) 320 (int (length (example_pred_origin ! 0)))) = Inr 0 \<and>
   py_int (real (0::nat) * (1920 / 320)) = 0 \<and> py_int (real (0::nat) * (1080 / 128)) = 0 \<and>
   element_window 320 128 example_original example_pred_origin 0 = Inr (0, 320, 0, 128) \<and>
   (0::int) \<noteq> 0 - 320 div 2 \<and> (320::int) \<noteq> 0 + 320 div 2 \<and>
   (0::int) \<noteq> 0 - 128 div 2 \<and> (128::int) \<noteq> 0 + 128 div 2 \<and>
   argmax (py_slice (example_pred_zero ! 0) 0 320) = Inr 0 \<and>
   element_window 320 128 example_original example_pred_zero 0 = Inr (800, 1120, 476, 604) \<and>
   (800::int) \<noteq> 0 - 320 div 2 \<and>
   argmax (py_slice [0, 0, 1, 0, 0, 0, 0, 1, 0, 0] 0 5) = Inr 2 \<and>
   py_int (real (2::nat) * (20 / 5)) = 8 \<and>
   crop_window 5 5 20 20 (20 / 5) (20 / 5) (mask_pred [[0, 0, 1, 0, 0, 0, 0, 1, 0, 0]] ! 0) = Inr (6, 11, 6, 11) \<and>
   2 * ((8::int) - 6) \<noteq> 5 \<and> 2 * ((11::int) - 8) \<noteq> 5"
proof -
  have ro: "example_pred_origin ! 0 = (1 # replicate 319 0) @ (1 # replicate 127 0)"
    by (simp add: example_pred_origin_def)
  have o1: "argmax (py_slice (example_pred_origin ! 0) 0 320) = Inr 0"
    unfolding ro by (subst py_slice_append_left) (simp_all add: argmax_one_zeros)
  have o2: "argmax (py_slice (example_pred_origin ! 0) 320 (int (length (example_pred_origin ! 0)))) = Inr 0"
    unfolding ro by (subst py_slice_append_right) (simp_all add: argmax_one_zeros)
  have "replicate 448 (0::real) = replicate 320 0 @ replicate 128 0"
    unfolding replicate_add [symmetric] by simp
  then have rz: "example_pred_zero ! 0 = replicate 320 0 @ replicate 128 0"
    by (simp add: example_pred_zero_def)
  have "replicate 320 (0::real) = replicate (Suc 319) 0" by simp
  then have "replicate 320 (0::real) = 0 # replicate 319 0" unfolding replicate_Suc .
  then have "argmax (replicate 320 0) = Inr 0"
    by (simp add: argmax_def argmax_from_zeros)
  then have z1: "argmax (py_slice (example_pred_zero ! 0) 0 320) = Inr 0"
    unfolding rz by (subst py_slice_append_left) simp_all
  have d1: "argmax (py_slice [0, 0, 1, 0, 0, 0, 0, 1, 0, 0] 0 5) = Inr 2"
    by (simp add: py_slice_def slice_indices_def argmax_def)
  have d2: "crop_window 5 5 20 20 (20 / 5) (20 / 5) (mask_pred [[0, 0, 1, 0, 0, 0, 0, 1, 0, 0]] ! 0) = Inr (6, 11, 6, 11)"
    by (simp add: crop_window_def ball_pos_def mask_pred_def py_slice_def slice_indices_def argmax_def
        adjust_pos_def get_crop_params_def py_int_def Let_def)
  show ?thesis
    using o1 o2 z1 d1 d2 element_window_origin element_window_zero by (simp add: py_int_def)
qed

text \<open>
  C3 (as amended). Centring-pad occurs exactly when the \<open>w_resize x h_resize\<close> window placed
  at the clamped corner \<open>(x_min, y_min)\<close> would pass the right or the bottom edge of the
  original image (\<open>x_min + w_resize > w_original\<close> or \<open>y_min + h_resize > h_original\<close>).
  For every batch element with window \<open>(x_min, x_max, y_min, y_max)\<close>,
  \<open>w_crop = x_max - x_min\<close> and \<open>h_crop = y_max - y_min\<close>: if
  \<open>(w_crop, h_crop) = (w_resize, h_resize)\<close> the local input equals the crop itself;
  otherwise the crop is written into an all-zero \<open>(h_resize, w_resize)\<close> tensor at the
  offsets \<open>x_pad = floor((w_resize - w_crop)/2)\<close>, \<open>y_pad = floor((h_resize - h_crop)/2)\<close>,
  with zeros everywhere outside that patch. As stated for the window around the prediction
  the claim fails: for a peak at grid cell (0, 0) that window, \<open>[-160, 160) x [-64, 64)\<close>,
  leaves the image, and the local input is the unpadded crop \<open>[0, 320) x [0, 128)\<close>.
\<close>

theorem crop_original_batch_centering_pad:
  fixes original resize :: "('a::zero) tensor4"
  assumes ok: "batch_shapes_ok w_resize h_resize original resize pred"
    and idx: "idx < dim_b original" and c: "c < dim_c original"
  shows "\<exists>out x_min x_max y_min y_max x_pad y_pad.
     crop_original_batch w_resize h_resize original resize pred = Inr out \<and>
     element_window w_resize h_resize original pred idx = Inr (x_min, x_max, y_min, y_max) \<and>
     x_pad = (w_resize - (x_max - x_min)) div 2 \<and> y_pad = (h_resize - (y_max - y_min)) div 2 \<and>
     ((x_max - x_min \<noteq> w_resize \<or> y_max - y_min \<noteq> h_resize) \<longleftrightarrow>
        (int (dim_w original) < x_min + w_resize \<or> int (dim_h original) < y_min + h_resize)) \<and>
     (x_max - x_min = w_resize \<and> y_max - y_min = h_resize \<longrightarrow>
        (\<forall>y<dim_h resize. \<forall>x<dim_w resize.
           elem out idx c y x = elem original idx c (nat y_min + y) (nat x_min + x))) \<and>
     (x_max - x_min \<noteq> w_resize \<or> y_max - y_min \<noteq> h_resize \<longrightarrow>
        (\<forall>y<dim_h resize. \<forall>x<dim_w resize.
           elem out idx c y x =
             (if y_pad \<le> int y \<and> int y < y_pad + (y_max - y_min) \<and>
                 x_pad \<le> int x \<and> int x < x_pad + (x_max - x_min)
              then elem original idx c (nat (y_min + (int y - y_pad))) (nat (x_min + (int x - x_pad)))
              else 0)))"
proof -
  obtain x_min x_max y_min y_max x_pad y_pad where
    win: "element_window w_resize h_resize original pred idx = Inr (x_min, x_max, y_min, y_max)"
    and pads: "pad_offsets w_resize h_resize (x_min, x_max, y_min, y_max) = (x_pad, y_pad)"
    and b: "0 \<le> x_min" "x_min \<le> x_max" "x_max - x_min \<le> w_resize"
           "0 \<le> y_min" "y_min \<le> y_max" "y_max - y_min \<le> h_resize"
    using element_window_bounds [OF ok idx] by blast
  have pd: "x_pad = (w_resize - (x_max - x_min)) div 2" "y_pad = (h_resize - (y_max - y_min)) div 2"
    using pads b py_int_half [of "w_resize - (x_max - x_min)"] py_int_half [of "h_resize - (y_max - y_min)"]
    unfolding pad_offsets_def by simp_all
  have sh: "x_max = min (int (dim_w original)) (x_min + w_resize)"
           "y_max = min (int (dim_h original)) (y_min + h_resize)"
    using element_window_shape [OF ok win] by simp_all
  have iff: "(x_max - x_min \<noteq> w_resize \<or> y_max - y_min \<noteq> h_resize) \<longleftrightarrow>
        (int (dim_w original) < x_min + w_resize \<or> int (dim_h original) < y_min + h_resize)"
    unfolding sh by linarith
  obtain out where run: "crop_original_batch w_resize h_resize original resize pred = Inr out"
    and R: "\<forall>idx<dim_b original. \<forall>x_min x_max y_min y_max x_pad y_pad.
              element_window w_resize h_resize original pred idx = Inr (x_min, x_max, y_min, y_max) \<longrightarrow>
              pad_offsets w_resize h_resize (x_min, x_max, y_min, y_max) = (x_pad, y_pad) \<longrightarrow>
              (\<forall>c y x. c < dim_c original \<longrightarrow> elem out idx c y x =
                (if y_pad \<le> int y \<and> int y < y_pad + (y_max - y_min) \<and>
                    x_pad \<le> int x \<and> int x < x_pad + (x_max - x_min)
                 then elem original idx c (nat (y_min + (int y - y_pad))) (nat (x_min + (int x - x_pad)))
                 else 0))"
    using crop_original_batch_result [OF ok] by blast
  have el: "elem out idx c y x =
                (if y_pad \<le> int y \<and> int y < y_pad + (y_max - y_min) \<and>
                    x_pad \<le> int x \<and> int x < x_pad + (x_max - x_min)
                 then elem original idx c (nat (y_min + (int y - y_pad))) (nat (x_min + (int x - x_pad)))
                 else 0)" for y x
    using R [rule_format, OF idx win pads c] .
  have dims: "int (dim_w resize) = w_resize" "int (dim_h resize) = h_resize"
    using ok by (simp_all add: batch_shapes_ok_def)
  have full: "elem out idx c y x = elem original idx c (nat y_min + y) (nat x_min + x)"
    if f: "x_max - x_min = w_resize \<and> y_max - y_min = h_resize" and y: "y < dim_h resize" and x: "x < dim_w resize"
    for y x
  proof -
    have z: "x_pad = 0" "y_pad = 0" using pd f by simp_all
    have "int y < h_resize" "int x < w_resize" using y x dims by linarith+
    then have "elem out idx c y x = elem original idx c (nat (y_min + int y)) (nat (x_min + int x))"
      using el [of y x] f unfolding z by simp
    moreover have "nat (y_min + int y) = nat y_min + y" "nat (x_min + int x) = nat x_min + x"
      using b by linarith+
    ultimately show ?thesis by simp
  qed
  show ?thesis
    apply (rule exI [of _ out], rule exI [of _ x_min], rule exI [of _ x_max], rule exI [of _ y_min],
        rule exI [of _ y_max], rule exI [of _ x_pad], rule exI [of _ y_pad])
    apply (intro conjI)
          apply (rule run)
         apply (rule win)
        apply (rule pd(1))
       apply (rule pd(2))
      apply (rule iff)
     apply (use full in blast)
    apply (use el in blast)
    done
qed

theorem crop_original_batch_centering_pad_witness:
  "batch_shapes_ok 320 128 example_original example_resize example_pred_corner \<and>
   batch_shapes_ok 320 128 example_original example_resize example_pred_zero \<and>
   (0::nat) < dim_b example_original \<and> (0::nat) < dim_c example_original \<and>
   (\<exists>out. crop_original_batch 320 128 example_original example_resize example_pred_corner = Inr out \<and>
      elem out 0 0 27 77 = elem example_original 0 0 1007 1754 \<and>
      elem out 0 0 99 242 = elem example_original 0 0 1079 1919 \<and>
      elem out 0 0 0 0 = 0 \<and> elem out 0 0 100 242 = 0 \<and> elem out 0 0 99 243 = 0) \<and>
   (\<exists>out. crop_original_batch 320 128 example_original example_resize example_pred_zero = Inr out \<and>
      elem out 0 0 0 0 = elem example_original 0 0 476 800 \<and>
      elem out 0 0 127 319 = elem example_original 0 0 603 1119)"
proof -
  have i: "(0::nat) < dim_b example_original" and c: "(0::nat) < dim_c example_original"
    by (simp_all add: example_original_def)
  have d: "dim_h example_resize = 128" "dim_w example_resize = 320"
    by (simp_all add: example_resize_def)
  obtain out x_min x_max y_min y_max x_pad y_pad where
    run: "crop_original_batch 320 128 example_original example_resize example_pred_corner = Inr out"
    and win: "element_window 320 128 example_original example_pred_corner 0 = Inr (x_min, x_max, y_min, y_max)"
    and pd: "x_pad = (320 - (x_max - x_min)) div 2" "y_pad = (128 - (y_max - y_min)) div 2"
    and pad: "x_max - x_min \<noteq> 320 \<or> y_max - y_min \<noteq> 128 \<longrightarrow>
        (\<forall>y<dim_h example_resize. \<forall>x<dim_w example_resize.
           elem out 0 0 y x =
             (if y_pad \<le> int y \<and> int y < y_pad + (y_max - y_min) \<and>
                 x_pad \<le> int x \<and> int x < x_pad + (x_max - x_min)
              then elem example_original 0 0 (nat (y_min + (int y - y_pad))) (nat (x_min + (int x - x_pad)))
              else 0))"
    using crop_original_batch_centering_pad [OF shapes_corner i c] by blast
  have w: "x_min = 1754" "x_max = 1920" "y_min = 1007" "y_max = 1080"
    using win element_window_corner by simp_all
  have p: "x_pad = 77" "y_pad = 27" using pd unfolding w by simp_all
  have P: "\<And>y x. y < 128 \<Longrightarrow> x < 320 \<Longrightarrow> elem out 0 0 y x =
             (if 27 \<le> int y \<and> int y < 100 \<and> 77 \<le> int x \<and> int x < 243
              then elem example_original 0 0 (nat (1007 + (int y - 27))) (nat (1754 + (int x - 77)))
              else 0)"
    using pad unfolding w p d by simp
  have A: "\<exists>out. crop_original_batch 320 128 example_original example_resize example_pred_corner = Inr out \<and>
      elem out 0 0 27 77 = elem example_original 0 0 1007 1754 \<and>
      elem out 0 0 99 242 = elem example_original 0 0 1079 1919 \<and>
      elem out 0 0 0 0 = 0 \<and> elem out 0 0 100 242 = 0 \<and> elem out 0 0 99 243 = 0"
    using run P [of 27 77] P [of 99 242] P [of 0 0] P [of 100 242] P [of 99 243] by simp
  obtain out' x_min' x_max' y_min' y_max' where
    run': "crop_original_batch 320 128 example_original example_resize example_pred_zero = Inr out'"
    and win': "element_window 320 128 example_original example_pred_zero 0 = Inr (x_min', x_max', y_min', y_max')"
    and full: "x_max' - x_min' = 320 \<and> y_max' - y_min' = 128 \<longrightarrow>
        (\<forall>y<dim_h example_resize. \<forall>x<dim_w example_resize.
           elem out' 0 0 y x = elem example_original 0 0 (nat y_min' + y) (nat x_min' + x))"
    using crop_original_batch_centering_pad [OF shapes_zero i c] by blast
  have w': "x_min' = 800" "x_max' = 1120" "y_min' = 476" "y_max' = 604"
    using win' element_window_zero by simp_all
  have F: "\<And>y x. y < 128 \<Longrightarrow> x < 320 \<Longrightarrow>
      elem out' 0 0 y x = elem example_original 0 0 (476 + y) (800 + x)"
    using full unfolding w' d by simp
  have B: "\<exists>out. crop_original_batch 320 128 example_original example_resize example_pred_zero = Inr out \<and>
      elem out 0 0 0 0 = elem example_original 0 0 476 800 \<and>
      elem out 0 0 127 319 = elem example_original 0 0 603 1119"
    using run' F [of 0 0] F [of 127 319] by simp
  show ?thesis using shapes_corner shapes_zero i c A B by blast
qed

theorem crop_original_batch_centering_pad_counterexample:
  "argmax (py_slice (example_pred_origin ! 0) 0 320) = Inr 0 \<and>
   argmax (py_slice (example_pred_origin ! 0) 320 (int (length (example_pred_origin ! 0)))) = Inr 0 \<and>
   adjust_pos 0 (real (dim_w example_original) / real_of_int 320) - 320 div 2 < 0 \<and>
   adjust_pos 0 (real (dim_h example_original) / real_of_int 128) - 128 div 2 < 0 \<and>
   element_window 320 128 example_original example_pred_origin 0 = Inr (0, 320, 0, 128) \<and>
   (320::int) - 0 = 320 \<and> (128::int) - 0 = 128 \<and>
   (case crop_original_batch 320 128 example_original example_resize example_pred_origin of
      Inl e \<Rightarrow> False
    | Inr out \<Rightarrow>
        elem out 0 0 0 0 = elem example_original 0 0 0 0 \<and>
        elem out 0 0 127 319 = elem example_original 0 0 127 319 \<and>
        elem out 0 0 0 0 \<noteq> 0)"
proof -
  have ro: "example_pred_origin ! 0 = (1 # replicate 319 0) @ (1 # replicate 127 0)"
    by (simp add: example_pred_origin_def)
  have o1: "argmax (py_slice (example_pred_origin ! 0) 0 320) = Inr 0"
    unfolding ro by (subst py_slice_append_left) (simp_all add: argmax_one_zeros)
  have o2: "argmax (py_slice (example_pred_origin ! 0) 320 (int (length (example_pred_origin ! 0)))) = Inr 0"
    unfolding ro by (subst py_slice_append_right) (simp_all add: argmax_one_zeros)
  have c: "adjust_pos 0 (real (dim_w example_original) / real_of_int 320) - 320 div 2 < 0"
      "adjust_pos 0 (real (dim_h example_original) / real_of_int 128) - 128 div 2 < 0"
    by (simp_all add: adjust_pos_def py_int_def)
  have p: "pad_offsets 320 128 (0, 320, 0, 128) = (0, 0)"
    by (simp add: pad_offsets_def py_int_def)
  have i: "(0::nat) < dim_b example_original" and ch: "(0::nat) < dim_c example_original"
    by (simp_all add: example_original_def)
  obtain out where run: "crop_original_batch 320 128 example_original example_resize example_pred_origin = Inr out"
    and R: "\<forall>idx<dim_b example_original. \<forall>x_min x_max y_min y_max x_pad y_pad.
              element_window 320 128 example_original example_pred_origin idx = Inr (x_min, x_max, y_min, y_max) \<longrightarrow>
              pad_offsets 320 128 (x_min, x_max, y_min, y_max) = (x_pad, y_pad) \<longrightarrow>
              (\<forall>c y x. c < dim_c example_original \<longrightarrow> elem out idx c y x =
                (if y_pad \<le> int y \<and> int y < y_pad + (y_max - y_min) \<and>
                    x_pad \<le> int x \<and> int x < x_pad + (x_max - x_min)
                 then elem example_original idx c (nat (y_min + (int y - y_pad))) (nat (x_min + (int x - x_pad)))
                 else 0))"
    using crop_original_batch_result [OF shapes_origin] by blast
  have E: "elem out 0 0 y x =
                (if 0 \<le> int y \<and> int y < 0 + (128 - 0) \<and> 0 \<le> int x \<and> int x < 0 + (320 - 0)
                 then elem example_original 0 0 (nat (0 + (int y - 0))) (nat (0 + (int x - 0)))
                 else 0)" for y x
    using R [rule_format, OF i element_window_origin p ch] .
  have e1: "elem out 0 0 0 0 = elem example_original 0 0 0 0" using E [of 0 0] by simp
  have e2: "elem out 0 0 127 319 = elem example_original 0 0 127 319" using E [of 127 319] by simp
  have e3: "elem out 0 0 0 0 \<noteq> 0" unfolding e1 by (simp add: example_original_def)
  show ?thesis
    using o1 o2 c element_window_origin e1 e2 e3 by (simp add: run)
qed

text \<open>
  C4. The demo's coordinate reconstruction inverts the crop transform away from the image
  borders: when the window around the scaled global prediction is unclamped and the integer
  local prediction \<open>(lx, ly)\<close> lies inside the 320 x 128 crop, the demo's final position
  equals \<open>(x_min + lx, y_min + ly)\<close>.
\<close>

theorem prediction_ball_final_inverts_crop:
  assumes "x_center = adjust_pos gx (1920 / 320)" "y_center = adjust_pos gy (1080 / 128)"
    and "0 \<le> x_center - 160" "x_center + 160 \<le> 1920" "0 \<le> y_center - 64" "y_center + 64 \<le> 1080"
    and "0 \<le> lx" "lx < 320" "0 \<le> ly" "ly < 128"
    and "get_crop_params x_center y_center 320 128 1920 1080 = (x_min, x_max, y_min, y_max)"
  shows "prediction_ball_final (gx, gy) (lx, ly) = (x_min + lx, y_min + ly)"
proof -
  have mins: "x_min = x_center - 160" "y_min = y_center - 64"
    using assms(11) assms(3,5) by (simp_all add: get_crop_params_eq)
  have "real_of_int gx * (1920 / 320) = real_of_int (gx * 6)" by simp
  then have xc: "x_center = gx * 6"
    unfolding assms(1) adjust_pos_def by (simp only: py_int_of_int)
  have "real_of_int gx * (1920 / 320) + real_of_int lx - 320 / 2 = real_of_int (gx * 6 + lx - 160)"
    by simp
  then have fx: "py_int (real_of_int gx * (1920 / 320) + real_of_int lx - 320 / 2) = gx * 6 + lx - 160"
    by (simp only: py_int_of_int)
  define a where "a = real_of_int gy * (1080 / 128)"
  have yc: "y_center = py_int a" unfolding assms(2) adjust_pos_def a_def ..
  have a0: "0 \<le> a"
  proof (rule ccontr)
    assume "\<not> 0 \<le> a"
    then have "py_int a \<le> 0" by (simp add: py_int_def ceiling_le_iff)
    then show False using yc assms(5) by simp
  qed
  then have fl: "y_center = \<lfloor>a\<rfloor>" using yc by (simp add: py_int_def)
  have "64 \<le> \<lfloor>a\<rfloor>" using fl assms(5) by simp
  then have "64 \<le> a" by (simp add: le_floor_iff)
  then have nn: "0 \<le> a + real_of_int (ly - 64)" using assms(9) by simp
  have "py_int (a + real_of_int (ly - 64)) = \<lfloor>a + real_of_int (ly - 64)\<rfloor>"
    using nn by (simp only: py_int_nonneg)
  also have "\<dots> = \<lfloor>a\<rfloor> + (ly - 64)" by (rule floor_add_int [symmetric])
  finally have K: "py_int (a + real_of_int (ly - 64)) = y_center - 64 + ly" using fl by simp
  have e: "real_of_int gy * (1080 / 128) + real_of_int ly - 128 / 2 = a + real_of_int (ly - 64)"
    unfolding a_def by simp
  have fy: "py_int (real_of_int gy * (1080 / 128) + real_of_int ly - 128 / 2) = y_center - 64 + ly"
    unfolding e by (rule K)
  show ?thesis
    unfolding prediction_ball_final_def Let_def fst_conv snd_conv fx fy mins xc by simp
qed

theorem prediction_ball_final_inverts_crop_witness:
  "(600::int) = adjust_pos 100 (1920 / 320) \<and> (421::int) = adjust_pos 50 (1080 / 128) \<and>
   (0::int) \<le> 600 - 160 \<and> (600::int) + 160 \<le> 1920 \<and> (0::int) \<le> 421 - 64 \<and> (421::int) + 64 \<le> 1080 \<and>
   (0::int) \<le> 3 \<and> (3::int) < 320 \<and> (0::int) \<le> 4 \<and> (4::int) < 128 \<and>
   get_crop_params 600 421 320 128 1920 1080 = (440, 760, 357, 485) \<and>
   prediction_ball_final (100, 50) (3, 4) = (440 + 3, 357 + 4)"
proof -
  have x: "(600::int) = adjust_pos 100 (1920 / 320)" and y: "(421::int) = adjust_pos 50 (1080 / 128)"
    by (simp_all add: adjust_pos_def py_int_def)
  have g: "get_crop_params 600 421 320 128 1920 1080 = (440, 760, 357, 485)"
    by (simp add: get_crop_params_eq)
  have "prediction_ball_final (100, 50) (3, 4) = (440 + 3, 357 + 4)"
    by (rule prediction_ball_final_inverts_crop [OF x y _ _ _ _ _ _ _ _ g]) simp_all
  then show ?thesis using x y g by simp
qed

text \<open>
  C5. \<open>TTNet.forward\<close> realises the coarse-then-refined pipeline. It returns
  \<open>(pred_ball_global, pred_ball_local, pred_eventspotting, pred_segmentation)\<close>, in this
  order, exactly when the global stage run on the resized frames gives \<open>pred_ball_global\<close>
  with its feature map and encoder blocks, \<open>crop_original_batch\<close> applied to the original
  frames, the resized frames and \<open>pred_ball_global\<close> gives the input on which the local stage
  gives \<open>pred_ball_local\<close> with its feature map, the concatenation of the global and the
  local feature map gives \<open>pred_eventspotting\<close>, and the four encoder blocks of the global
  stage give \<open>pred_segmentation\<close>.
\<close>

theorem forward_pipeline:
  "forward net original resize = Inr (pred_ball_global, pred_ball_local, pred_eventspotting, pred_segmentation)
   \<longleftrightarrow>
   (\<exists>global_features out_block2 out_block3 out_block4 out_block5
      input_ball_local local_features l2 l3 l4 l5 input_eventspotting.
      ball_global_stage net resize =
        Inr (pred_ball_global, global_features, out_block2, out_block3, out_block4, out_block5) \<and>
      crop_original_batch (net_w_resize net) (net_h_resize net) original resize pred_ball_global
        = Inr input_ball_local \<and>
      ball_local_stage net input_ball_local = Inr (pred_ball_local, local_features, l2, l3, l4, l5) \<and>
      cat_channels global_features local_features = Inr input_eventspotting \<and>
      events_head net input_eventspotting = Inr pred_eventspotting \<and>
      segmentation net out_block2 out_block3 out_block4 out_block5 = Inr pred_segmentation)"
  unfolding forward_def events_spotting_def
  by (auto split: sum.splits prod.splits)

theorem forward_pipeline_witness:
  "forward example_net example_original example_resize =
     Inr (example_pred_zero, [[128, 320]], [[54]], example_resize)"
proof -
  obtain out where out: "crop_original_batch 320 128 example_original example_resize example_pred_zero = Inr out"
    and d: "dim_b out = dim_b example_resize" "dim_c out = dim_c example_resize"
      "dim_h out = dim_h example_resize" "dim_w out = dim_w example_resize"
    using crop_original_batch_result [OF shapes_zero] by blast
  define cat where "cat = \<lparr>dim_b = dim_b example_resize, dim_c = dim_c example_resize + dim_c out,
      dim_h = dim_h example_resize, dim_w = dim_w example_resize,
      elem = \<lambda>n c y x. if c < dim_c example_resize then elem example_resize n c y x
                        else elem out n (c - dim_c example_resize) y x\<rparr>"
  have g: "ball_global_stage example_net example_resize =
      Inr (example_pred_zero, example_resize, example_resize, example_resize, example_resize, example_resize)"
    by (simp add: example_net_def)
  have c: "crop_original_batch (net_w_resize example_net) (net_h_resize example_net)
      example_original example_resize example_pred_zero = Inr out"
    using out by (simp add: example_net_def)
  have l: "ball_local_stage example_net out = Inr ([[128, 320]], out, out, out, out, out)"
    using d by (simp add: example_net_def example_resize_def)
  have k: "cat_channels example_resize out = Inr cat"
    using d by (simp add: cat_channels_def cat_def)
  have e: "events_head example_net cat = Inr [[54]]"
    using d by (simp add: example_net_def cat_def example_resize_def)
  have s: "segmentation example_net example_resize example_resize example_resize example_resize
      = Inr example_resize"
    by (simp add: example_net_def)
  show ?thesis
    unfolding forward_pipeline using g c l k e s by blast
qed

text \<open>
  C6. The claim is that \<open>Unbalance_Loss_Model.forward\<close> calls the wrapped model with the
  arguments and the number of results of \<open>TTNet.forward\<close>, and that \<open>create_model\<close>
  builds a \<open>TTNet\<close> with arguments its constructor accepts. In the sources the wrapper passes
  three positional arguments to a \<open>forward\<close> of two parameters and unpacks five values from
  its four results, and \<open>create_model\<close> passes the keywords \<open>tasks\<close> and
  \<open>thresh_ball_pos_mask\<close> to a constructor that has neither: both calls raise TypeError for
  every input, while the two-argument call of \<open>TTNet.py\<close>'s own main block binds.
\<close>

theorem wrapper_model_interface_mismatch:
  "Unbalance_Loss_Model_forward net rest original resize org_ball_pos_xy global_ball_pos_xy
     event_class target_seg = Inl TypeError \<and>
   py_bind TTNet_forward_sig 3 [] = Inl TypeError \<and>
   py_bind TTNet_forward_sig 2 [] = Inr () \<and>
   py_unpack 5 4 = Inl ValueError \<and>
   create_model \<lparr>arch = ''ttnet'', multitask_learning = m\<rparr> multi_task_sig = Inl TypeError \<and>
   py_bind TTNet_init_sig 0 [''dropout_p'', ''input_size''] = Inr ()"
  by (simp add: Unbalance_Loss_Model_forward_def create_model_def py_bind_def py_unpack_def
      TTNet_forward_sig_def TTNet_init_sig_def)

text \<open>
  C7. \<open>create_target_events\<close> returns a vector of length 2 that one-hot encodes the event:
  1 at index \<open>event_class\<close> and 0 at the other index for the classes 0 and 1, and the
  all-zero vector for every class from 2 on.
\<close>

theorem create_target_events_one_hot:
  "0 \<le> event_class \<Longrightarrow>
   create_target_events event_class =
     Inr [if event_class = 0 then 1 else 0, if event_class = 1 then 1 else 0]"
proof -
  assume "0 \<le> event_class"
  then consider "event_class = 0" | "event_class = 1" | "2 \<le> event_class" by linarith
  then show ?thesis
    by cases (simp_all add: create_target_events_def py_setitem_def numeral_2_eq_2)
qed

theorem create_target_events_one_hot_witness:
  "(0::int) \<le> 0 \<and> (0::int) \<le> 1 \<and> (0::int) \<le> 2 \<and>
   create_target_events 0 = Inr [1, 0] \<and> create_target_events 1 = Inr [0, 1] \<and>
   create_target_events 2 = Inr [0, 0]"
  using create_target_events_one_hot [of 0] create_target_events_one_hot [of 1]
    create_target_events_one_hot [of 2] by simp

text \<open>
  C8 (as amended). \<open>crop_original_batch\<close> has a total centre fallback. After the entries
  not exceeding 0.01 are zeroed, a grid position is defined for every global prediction; if
  the x-half or the y-half of the masked prediction sums to zero (in particular when no
  entry exceeds 0.01, so also for the all-zero prediction) the position is
  \<open>(int(w_resize/2), int(h_resize/2))\<close>. For 1080 x 1920 frames resized to 128 x 320 this
  position scales to the centre (960, 540) of the original image and the window is
  \<open>[800, 1120) x [476, 604)\<close>. As stated for every size the claim fails: for the size 3 on
  an image 30 wide the position 1 scales to 10 and the window \<open>[9, 12)\<close> lies left of the
  centre 15.
\<close>

theorem crop_center_fallback:
  assumes "idx < length pred" and "row = mask_pred pred ! idx"
  shows "(\<exists>p. ball_pos w_resize h_resize row = Inr p) \<and>
     (sum_list (py_slice row 0 w_resize) = 0 \<or> sum_list (py_slice row w_resize (int (length row))) = 0 \<longrightarrow>
        ball_pos w_resize h_resize row =
          Inr (py_int (real_of_int w_resize / 2), py_int (real_of_int h_resize / 2))) \<and>
     ((\<forall>v\<in>set (pred ! idx). v \<le> 1 / 100) \<longrightarrow>
        ball_pos w_resize h_resize row =
          Inr (py_int (real_of_int w_resize / 2), py_int (real_of_int h_resize / 2))) \<and>
     (ball_pos w_resize h_resize row =
          Inr (py_int (real_of_int w_resize / 2), py_int (real_of_int h_resize / 2)) \<and>
      w_resize = 320 \<and> h_resize = 128 \<and> dim_w original = 1920 \<and> dim_h original = 1080 \<longrightarrow>
        adjust_pos (py_int (real_of_int w_resize / 2)) (real (dim_w original) / real_of_int w_resize) = 960 \<and>
        adjust_pos (py_int (real_of_int h_resize / 2)) (real (dim_h original) / real_of_int h_resize) = 540 \<and>
        element_window w_resize h_resize original pred idx =
          Inr (960 - 160, 960 + 160, 540 - 64, 540 + 64))"
proof (intro conjI impI)
  show "\<exists>p. ball_pos w_resize h_resize row = Inr p" by (rule ball_pos_total)
next
  assume "sum_list (py_slice row 0 w_resize) = 0 \<or> sum_list (py_slice row w_resize (int (length row))) = 0"
  then show "ball_pos w_resize h_resize row =
          Inr (py_int (real_of_int w_resize / 2), py_int (real_of_int h_resize / 2))"
    by (rule ball_pos_fallback)
next
  assume "\<forall>v\<in>set (pred ! idx). v \<le> 1 / 100"
  then have z: "\<forall>v\<in>set row. v = 0"
    using mask_pred_below_threshold [OF assms(1)] assms(2) by simp
  have "\<forall>v\<in>set (py_slice row 0 w_resize). v = 0"
    using z set_py_slice [of row 0 w_resize] by blast
  then have "sum_list (py_slice row 0 w_resize) = 0" by (rule sum_list_zeros)
  then show "ball_pos w_resize h_resize row =
          Inr (py_int (real_of_int w_resize / 2), py_int (real_of_int h_resize / 2))"
    by (simp add: ball_pos_fallback)
next
  assume a: "ball_pos w_resize h_resize row =
          Inr (py_int (real_of_int w_resize / 2), py_int (real_of_int h_resize / 2)) \<and>
      w_resize = 320 \<and> h_resize = 128 \<and> dim_w original = 1920 \<and> dim_h original = 1080"
  then show "adjust_pos (py_int (real_of_int w_resize / 2)) (real (dim_w original) / real_of_int w_resize) = 960"
    by (simp add: adjust_pos_def py_int_def)
next
  assume a: "ball_pos w_resize h_resize row =
          Inr (py_int (real_of_int w_resize / 2), py_int (real_of_int h_resize / 2)) \<and>
      w_resize = 320 \<and> h_resize = 128 \<and> dim_w original = 1920 \<and> dim_h original = 1080"
  then show "adjust_pos (py_int (real_of_int h_resize / 2)) (real (dim_h original) / real_of_int h_resize) = 540"
    by (simp add: adjust_pos_def py_int_def)
next
  assume a: "ball_pos w_resize h_resize row =
          Inr (py_int (real_of_int w_resize / 2), py_int (real_of_int h_resize / 2)) \<and>
      w_resize = 320 \<and> h_resize = 128 \<and> dim_w original = 1920 \<and> dim_h original = 1080"
  then have sz: "w_resize = 320" "h_resize = 128" "dim_w original = 1920" "dim_h original = 1080"
    by simp_all
  have b: "ball_pos 320 128 (mask_pred pred ! idx) = Inr (160, 64)"
    using a assms(2) unfolding sz by (simp add: py_int_def)
  show "element_window w_resize h_resize original pred idx =
          Inr (960 - 160, 960 + 160, 540 - 64, 540 + 64)"
    unfolding sz element_window_eq [OF assms(1)] crop_window_Inr [OF b] sz
    by (simp add: adjust_pos_def py_int_def get_crop_params_def)
qed

theorem crop_center_fallback_witness:
  "(0::nat) < length example_pred_zero \<and>
   list_all (\<lambda>v. v \<le> 1 / 100) (example_pred_zero ! 0) \<and>
   sum_list (py_slice (mask_pred example_pred_zero ! 0) 0 320) = 0 \<and>
   ball_pos 320 128 (mask_pred example_pred_zero ! 0) = Inr (160, 64) \<and>
   dim_w example_original = 1920 \<and> dim_h example_original = 1080 \<and>
   adjust_pos 160 (real (dim_w example_original) / real_of_int 320) = 960 \<and>
   adjust_pos 64 (real (dim_h example_original) / real_of_int 128) = 540 \<and>
   element_window 320 128 example_original example_pred_zero 0 = Inr (800, 1120, 476, 604)"
proof -
  have l: "(0::nat) < length example_pred_zero" by (simp add: example_pred_zero_def)
  have s: "\<forall>v\<in>set (example_pred_zero ! 0). v \<le> 1 / 100" by (simp add: example_pred_zero_def)
  have d: "dim_w example_original = 1920" "dim_h example_original = 1080"
    by (simp_all add: example_original_def)
  note t = crop_center_fallback [OF l refl, of 320 128 example_original]
  have h: "py_int (real_of_int 320 / 2) = 160" "py_int (real_of_int 128 / 2) = 64"
    by (simp_all add: py_int_def)
  have b: "ball_pos 320 128 (mask_pred example_pred_zero ! 0) = Inr (160, 64)"
    using t s unfolding h by blast
  have z: "sum_list (py_slice (mask_pred example_pred_zero ! 0) 0 320) = 0"
    by (rule sum_list_zeros)
      (use mask_pred_below_threshold [OF l s] set_py_slice [of "mask_pred example_pred_zero ! 0" 0 320] in blast)
  have w: "adjust_pos 160 (real (dim_w example_original) / real_of_int 320) = 960 \<and>
        adjust_pos 64 (real (dim_h example_original) / real_of_int 128) = 540 \<and>
        element_window 320 128 example_original example_pred_zero 0 =
          Inr (960 - 160, 960 + 160, 540 - 64, 540 + 64)"
    using t b d unfolding h by blast
  have a: "list_all (\<lambda>v. v \<le> 1 / 100) (example_pred_zero ! 0)"
    using s by (simp only: list_all_iff)
  show ?thesis using l a z b d w by simp
qed

theorem crop_center_fallback_counterexample:
  "sum_list (py_slice (mask_pred [[0, 0, 0, 0, 0, 0]] ! 0) 0 3) = 0 \<and>
   ball_pos 3 3 (mask_pred [[0, 0, 0, 0, 0, 0]] ! 0) = Inr (1, 1) \<and>
   adjust_pos 1 (30 / 3) = 10 \<and>
   crop_window 3 3 30 30 (30 / 3) (30 / 3) (mask_pred [[0, 0, 0, 0, 0, 0]] ! 0) = Inr (9, 12, 9, 12) \<and>
   (30::int) div 2 = 15 \<and> (12::int) \<le> 15"
  by (simp add: crop_window_def ball_pos_def mask_pred_def py_slice_def slice_indices_def
      adjust_pos_def get_crop_params_def py_int_def Let_def)

text \<open>
  C9. \<open>create_target_ball\<close> always returns a vector of length \<open>w + h\<close>; for every ball
  position that is not strictly inside the frame (\<open>x \<le> 0\<close> or \<open>x \<ge> w\<close> or \<open>y \<le> 0\<close> or
  \<open>y \<ge> h\<close>) the target is the all-zero vector, so a target that is not all zero comes from
  a position with \<open>0 < x < w\<close> and \<open>0 < y < h\<close>, where it is the thresholded pair of
  Gaussians.
\<close>

theorem create_target_ball_outside_zero:
  "length (create_target_ball (x, y) sigma w h thresh_mask) = w + h \<and>
   (x \<le> 0 \<or> real w \<le> x \<or> y \<le> 0 \<or> real h \<le> y \<longrightarrow>
      create_target_ball (x, y) sigma w h thresh_mask = replicate (w + h) 0) \<and>
   (create_target_ball (x, y) sigma w h thresh_mask \<noteq> replicate (w + h) 0 \<longrightarrow>
      0 < x \<and> x < real w \<and> 0 < y \<and> y < real h) \<and>
   (0 < x \<and> x < real w \<and> 0 < y \<and> y < real h \<longrightarrow>
      create_target_ball (x, y) sigma w h thresh_mask =
        map (\<lambda>v. if v < thresh_mask then 0 else v)
          (map (\<lambda>pos. gaussian_1d (real pos) x sigma) [0..<w] @
           map (\<lambda>pos. gaussian_1d (real pos) y sigma) [0..<h]))"
  by (auto simp: create_target_ball_def Let_def)

theorem create_target_ball_outside_zero_witness:
  "((0::real) \<le> 0 \<or> real (320::nat) \<le> 0 \<or> (50::real) \<le> 0 \<or> real (128::nat) \<le> 50) \<and>
   create_target_ball (0, 50) 1 320 128 (1 / 100) = replicate 448 0 \<and>
   create_target_ball (320, 50) 1 320 128 (1 / 100) = replicate 448 0 \<and>
   create_target_ball (100, 128) 1 320 128 (1 / 100) = replicate 448 0 \<and>
   length (create_target_ball (100, 50) 1 320 128 (1 / 100)) = 448 \<and>
   (0 < (100::real) \<and> (100::real) < real (320::nat) \<and> 0 < (50::real) \<and> (50::real) < real (128::nat)) \<and>
   create_target_ball (100, 50) 1 320 128 (1 / 100) ! 100 = 1"
proof -
  note a = create_target_ball_outside_zero [of 0 50 1 320 128 "1 / 100"]
  note b = create_target_ball_outside_zero [of 320 50 1 320 128 "1 / 100"]
  note c = create_target_ball_outside_zero [of 100 128 1 320 128 "1 / 100"]
  note d = create_target_ball_outside_zero [of 100 50 1 320 128 "1 / 100"]
  have e: "create_target_ball (100, 50) 1 320 128 (1 / 100) =
        map (\<lambda>v. if v < 1 / 100 then 0 else v)
          (map (\<lambda>pos. gaussian_1d (real pos) 100 1) [0..<320] @
           map (\<lambda>pos. gaussian_1d (real pos) 50 1) [0..<128])"
    using d by simp
  have "create_target_ball (100, 50) 1 320 128 (1 / 100) ! 100 = 1"
    unfolding e by (simp add: nth_append gaussian_1d_def)
  then show ?thesis using a b c d by simp
qed

text \<open>
  C10 (as amended). \<open>load_weights_local_stage\<close> copies the global-stage weights onto the
  local stage and changes nothing else, for every state dict in which each key containing
  \<open>ball_global_stage\<close> has it as its second dot-separated component (the keys
  \<open><prefix>.ball_global_stage.<rest>\<close> of the wrapped model): every key not containing
  \<open>ball_local_stage\<close> maps to its original value, every key containing
  \<open>ball_global_stage\<close> gains a counterpart key, with that component replaced by
  \<open>ball_local_stage\<close>, mapped to the same value (overwriting an existing local-stage
  entry), and no other keys are added. As stated for every state dict the claim fails: the
  code replaces the second component whatever it is, so the key
  \<open>ball_global_stage.conv1.weight\<close> gains \<open>ball_global_stage.ball_local_stage.weight\<close>,
  and a key without a dot raises IndexError.
\<close>

theorem load_weights_local_stage_copies:
  assumes dist: "distinct (map fst pretrained_dict)"
    and form: "\<forall>k\<in>fst ` set pretrained_dict. sublist ''ball_global_stage'' k \<longrightarrow> global_stage_second k"
  shows "\<exists>r. load_weights_local_stage pretrained_dict = Inr r \<and> distinct (map fst r) \<and>
     (\<forall>k. \<not> sublist ''ball_local_stage'' k \<longrightarrow> map_of r k = map_of pretrained_dict k) \<and>
     (\<forall>k\<in>fst ` set pretrained_dict. sublist ''ball_global_stage'' k \<longrightarrow>
        map_of r (local_name_of k) = map_of pretrained_dict k \<and>
        split_on CHR ''.'' (local_name_of k) = (split_on CHR ''.'' k)[1 := ''ball_local_stage''] \<and>
        split_on CHR ''.'' k ! 1 = ''ball_global_stage'') \<and>
     fst ` set r = fst ` set pretrained_dict \<union>
        local_name_of ` {k \<in> fst ` set pretrained_dict. sublist ''ball_global_stage'' k}"
proof -
  let ?L = "local_items pretrained_dict"
  let ?local = "dict_merge [] ?L"
  let ?r = "dict_merge pretrained_dict ?local"
  have run: "load_weights_local_stage pretrained_dict = Inr ?r"
    by (simp add: load_weights_local_stage_def local_weights_loop_eq [OF form])
  have dL: "distinct (map fst ?L)" by (rule distinct_local_items [OF dist form])
  have dl: "distinct (map fst ?local)" by (rule distinct_dict_merge) simp
  have ml: "map_of ?local = map_of ?L"
    by (simp add: map_of_dict_merge map_of_rev_distinct [OF dL])
  have mr: "map_of ?r = map_of pretrained_dict ++ map_of ?L"
    unfolding map_of_dict_merge [of pretrained_dict ?local] map_of_rev_distinct [OF dl] ml ..
  have keysL: "fst ` set ?L = local_name_of ` {k \<in> fst ` set pretrained_dict. sublist ''ball_global_stage'' k}"
    by (rule local_items_keys)
  have dr: "distinct (map fst ?r)" by (rule distinct_dict_merge [OF dist])
  have p1: "map_of ?r k = map_of pretrained_dict k" if "\<not> sublist ''ball_local_stage'' k" for k
  proof -
    have "k \<notin> fst ` set ?L"
    proof
      assume "k \<in> fst ` set ?L"
      then obtain g where g: "g \<in> fst ` set pretrained_dict" "sublist ''ball_global_stage'' g"
          "k = local_name_of g"
        unfolding keysL by blast
      then have "1 < length (split_on CHR ''.'' g)"
        using form by (auto simp: global_stage_second_def Let_def)
      then show False using local_name_of_contains g(3) that by blast
    qed
    then have "k \<notin> dom (map_of ?L)" by (simp add: dom_map_of_conv_image_fst)
    then show ?thesis unfolding mr by (simp add: map_add_dom_app_simps)
  qed
  have p2: "map_of ?r (local_name_of k) = map_of pretrained_dict k \<and>
        split_on CHR ''.'' (local_name_of k) = (split_on CHR ''.'' k)[1 := ''ball_local_stage''] \<and>
        split_on CHR ''.'' k ! 1 = ''ball_global_stage''"
    if k: "k \<in> fst ` set pretrained_dict" and g: "sublist ''ball_global_stage'' k" for k
  proof -
    obtain v where v: "(k, v) \<in> set pretrained_dict" using k by auto
    then have "(local_name_of k, v) \<in> set ?L"
      using g by (force simp: local_items_def)
    then have "map_of ?L (local_name_of k) = Some v" using dL by simp
    then have "map_of ?r (local_name_of k) = Some v" unfolding mr by simp
    moreover have "map_of pretrained_dict k = Some v" using v dist by simp
    moreover have "split_on CHR ''.'' k ! 1 = ''ball_global_stage''"
      using form k g by (auto simp: global_stage_second_def Let_def)
    ultimately show ?thesis using split_local_name_of by simp
  qed
  have p3: "fst ` set ?r = fst ` set pretrained_dict \<union>
        local_name_of ` {k \<in> fst ` set pretrained_dict. sublist ''ball_global_stage'' k}"
  proof -
    have "fst ` set ?r = dom (map_of ?r)" by (simp add: dom_map_of_conv_image_fst)
    also have "\<dots> = dom (map_of pretrained_dict) \<union> dom (map_of ?L)" unfolding mr by auto
    also have "\<dots> = fst ` set pretrained_dict \<union> fst ` set ?L"
      by (simp add: dom_map_of_conv_image_fst)
    finally show ?thesis unfolding keysL .
  qed
  show ?thesis
    apply (rule exI [of _ ?r])
    apply (intro conjI)
        apply (rule run)
       apply (rule dr)
      apply (use p1 in blast)
     apply (use p2 in blast)
    apply (rule p3)
    done
qed

theorem load_weights_local_stage_copies_witness:
  "distinct (map fst example_state_dict) \<and>
   global_stage_second ''model.ball_global_stage.conv1.weight'' \<and>
   \<not> sublist ''ball_global_stage'' ''model.ball_local_stage.conv1.weight'' \<and>
   \<not> sublist ''ball_global_stage'' ''model.segmentation.conv1.weight'' \<and>
   sublist ''ball_global_stage'' ''model.ball_global_stage.conv1.weight'' \<and>
   \<not> sublist ''ball_local_stage'' ''model.segmentation.conv1.weight'' \<and>
   (\<exists>r. load_weights_local_stage example_state_dict = Inr r \<and>
      map_of r ''model.ball_local_stage.conv1.weight'' = Some 1 \<and>
      map_of r ''model.ball_global_stage.conv1.weight'' = Some 1 \<and>
      map_of r ''model.segmentation.conv1.weight'' = Some 3 \<and>
      fst ` set r = {''model.ball_global_stage.conv1.weight'', ''model.ball_local_stage.conv1.weight'',
                     ''model.segmentation.conv1.weight''})"
proof -
  have h1: "distinct (map fst example_state_dict)" by (simp add: example_state_dict_def)
  have h2: "\<forall>k\<in>fst ` set example_state_dict. sublist ''ball_global_stage'' k \<longrightarrow> global_stage_second k"
    by (simp add: example_state_dict_def global_stage_second_def sublist_Cons_right)
  have f1: "global_stage_second ''model.ball_global_stage.conv1.weight''"
    by (simp add: global_stage_second_def)
  have f2: "\<not> sublist ''ball_global_stage'' ''model.ball_local_stage.conv1.weight''"
    by (simp add: sublist_Cons_right)
  have f3: "\<not> sublist ''ball_global_stage'' ''model.segmentation.conv1.weight''"
    by (simp add: sublist_Cons_right)
  have g: "sublist ''ball_global_stage'' ''model.ball_global_stage.conv1.weight''"
    by (simp add: sublist_Cons_right)
  have ng: "\<not> sublist ''ball_local_stage'' ''model.ball_global_stage.conv1.weight''"
    by (simp add: sublist_Cons_right)
  have ns: "\<not> sublist ''ball_local_stage'' ''model.segmentation.conv1.weight''"
    by (simp add: sublist_Cons_right)
  have ln: "local_name_of ''model.ball_global_stage.conv1.weight'' = ''model.ball_local_stage.conv1.weight''"
    by (simp add: local_name_of_def)
  have m: "''model.ball_global_stage.conv1.weight'' \<in> fst ` set example_state_dict"
    by (simp add: example_state_dict_def)
  have ks: "fst ` set example_state_dict \<union>
        local_name_of ` {k \<in> fst ` set example_state_dict. sublist ''ball_global_stage'' k} =
      {''model.ball_global_stage.conv1.weight'', ''model.ball_local_stage.conv1.weight'',
       ''model.segmentation.conv1.weight''}"
    by (auto simp: example_state_dict_def sublist_Cons_right local_name_of_def)
  from load_weights_local_stage_copies [OF h1 h2]
  have E: "\<exists>r. load_weights_local_stage example_state_dict = Inr r \<and>
      map_of r ''model.ball_local_stage.conv1.weight'' = Some 1 \<and>
      map_of r ''model.ball_global_stage.conv1.weight'' = Some 1 \<and>
      map_of r ''model.segmentation.conv1.weight'' = Some 3 \<and>
      fst ` set r = {''model.ball_global_stage.conv1.weight'', ''model.ball_local_stage.conv1.weight'',
                     ''model.segmentation.conv1.weight''}"
  proof (elim exE conjE)
    fix r
    assume r: "load_weights_local_stage example_state_dict = Inr r"
      and p1: "\<forall>k. \<not> sublist ''ball_local_stage'' k \<longrightarrow> map_of r k = map_of example_state_dict k"
      and p2: "\<forall>k\<in>fst ` set example_state_dict. sublist ''ball_global_stage'' k \<longrightarrow>
        map_of r (local_name_of k) = map_of example_state_dict k \<and>
        split_on CHR ''.'' (local_name_of k) = (split_on CHR ''.'' k)[1 := ''ball_local_stage''] \<and>
        split_on CHR ''.'' k ! 1 = ''ball_global_stage''"
      and p3: "fst ` set r = fst ` set example_state_dict \<union>
        local_name_of ` {k \<in> fst ` set example_state_dict. sublist ''ball_global_stage'' k}"
    have a: "map_of r ''model.ball_local_stage.conv1.weight'' = Some 1"
      using p2 [rule_format, OF m g] unfolding ln by (simp add: example_state_dict_def)
    have b: "map_of r ''model.ball_global_stage.conv1.weight'' = Some 1"
      using p1 [rule_format, OF ng] by (simp add: example_state_dict_def)
    have c: "map_of r ''model.segmentation.conv1.weight'' = Some 3"
      using p1 [rule_format, OF ns] by (simp add: example_state_dict_def)
    show ?thesis
      by (rule exI [of _ r], intro conjI) (rule r a b c p3 [unfolded ks])+
  qed
  show ?thesis by (intro conjI) (rule h1 f1 f2 f3 g ns E)+
qed

theorem load_weights_local_stage_counterexample:
  "load_weights_local_stage [(''ball_global_stage.conv1.weight'', 1::nat)] =
     Inr [(''ball_global_stage.conv1.weight'', 1), (''ball_global_stage.ball_local_stage.weight'', 1)] \<and>
   load_weights_local_stage [(''ball_global_stage'', 1::nat)] = Inl IndexError"
  by (simp add: load_weights_local_stage_def sublist_Cons_right py_setitem_def dict_merge_def dict_set_def)

end
